theory Spec2Isabelle
  imports Complex_Main
begin

section \<open>JavaScript numbers\<close>

text \<open>
  The simulation computes on JavaScript numbers. They are modelled as exact reals extended
  by the three special values of IEEE 754 that the arithmetic of the source can produce:
  the two infinities and NaN. Rounding to binary64 is not modelled, and zero carries no
  sign (a non-zero dividend over zero gives the infinity of the dividend's sign). What is
  modelled exactly is how NaN and the infinities arise and propagate: \<open>0/0\<close>,
  \<open>\<infinity> - \<infinity>\<close>, \<open>0 * \<infinity>\<close>, the square root of a negative number, and every comparison
  with NaN being false.
\<close>

datatype jsnum = Num real | PInf | NInf | NaN

instantiation jsnum :: "{plus, minus, uminus, times, inverse, ord}"
begin

fun plus_jsnum :: "jsnum \<Rightarrow> jsnum \<Rightarrow> jsnum" where
  "plus_jsnum NaN b = NaN"
| "plus_jsnum a NaN = NaN"
| "plus_jsnum PInf NInf = NaN"
| "plus_jsnum NInf PInf = NaN"
| "plus_jsnum PInf b = PInf"
| "plus_jsnum a PInf = PInf"
| "plus_jsnum NInf b = NInf"
| "plus_jsnum a NInf = NInf"
| "plus_jsnum (Num a) (Num b) = Num (a + b)"

fun uminus_jsnum :: "jsnum \<Rightarrow> jsnum" where
  "uminus_jsnum (Num a) = Num (- a)"
| "uminus_jsnum PInf = NInf"
| "uminus_jsnum NInf = PInf"
| "uminus_jsnum NaN = NaN"

definition minus_jsnum :: "jsnum \<Rightarrow> jsnum \<Rightarrow> jsnum" where
  "minus_jsnum a b = a + (- b)"

fun times_jsnum :: "jsnum \<Rightarrow> jsnum \<Rightarrow> jsnum" where
  "times_jsnum NaN b = NaN"
| "times_jsnum a NaN = NaN"
| "times_jsnum (Num a) (Num b) = Num (a * b)"
| "times_jsnum (Num a) PInf = (if a = 0 then NaN else if 0 < a then PInf else NInf)"
| "times_jsnum (Num a) NInf = (if a = 0 then NaN else if 0 < a then NInf else PInf)"
| "times_jsnum PInf (Num b) = (if b = 0 then NaN else if 0 < b then PInf else NInf)"
| "times_jsnum NInf (Num b) = (if b = 0 then NaN else if 0 < b then NInf else PInf)"
| "times_jsnum PInf PInf = PInf"
| "times_jsnum PInf NInf = NInf"
| "times_jsnum NInf PInf = NInf"
| "times_jsnum NInf NInf = PInf"

fun divide_jsnum :: "jsnum \<Rightarrow> jsnum \<Rightarrow> jsnum" where
  "divide_jsnum NaN b = NaN"
| "divide_jsnum a NaN = NaN"
| "divide_jsnum (Num a) (Num b) =
     (if b = 0 then (if a = 0 then NaN else if 0 < a then PInf else NInf)
      else Num (a / b))"
| "divide_jsnum (Num a) PInf = Num 0"
| "divide_jsnum (Num a) NInf = Num 0"
| "divide_jsnum PInf (Num b) = (if 0 \<le> b then PInf else NInf)"
| "divide_jsnum NInf (Num b) = (if 0 \<le> b then NInf else PInf)"
| "divide_jsnum PInf PInf = NaN"
| "divide_jsnum PInf NInf = NaN"
| "divide_jsnum NInf PInf = NaN"
| "divide_jsnum NInf NInf = NaN"

definition inverse_jsnum :: "jsnum \<Rightarrow> jsnum" where
  "inverse_jsnum a = divide (Num 1) (a::jsnum)"

fun less_jsnum :: "jsnum \<Rightarrow> jsnum \<Rightarrow> bool" where
  "less_jsnum NaN b = False"
| "less_jsnum a NaN = False"
| "less_jsnum (Num a) (Num b) = (a < b)"
| "less_jsnum (Num a) PInf = True"
| "less_jsnum NInf (Num b) = True"
| "less_jsnum NInf PInf = True"
| "less_jsnum a b = False"

fun less_eq_jsnum :: "jsnum \<Rightarrow> jsnum \<Rightarrow> bool" where
  "less_eq_jsnum NaN b = False"
| "less_eq_jsnum a NaN = False"
| "less_eq_jsnum (Num a) (Num b) = (a \<le> b)"
| "less_eq_jsnum (Num a) PInf = True"
| "less_eq_jsnum NInf b = True"
| "less_eq_jsnum PInf PInf = True"
| "less_eq_jsnum a b = False"

instance ..

end

text \<open>The functions of the \<open>Math\<close> object that the simulation calls.\<close>

definition Math_PI :: jsnum where
  "Math_PI = Num pi"

fun Math_sqrt :: "jsnum \<Rightarrow> jsnum" where
  "Math_sqrt (Num a) = (if a < 0 then NaN else Num (sqrt a))"
| "Math_sqrt PInf = PInf"
| "Math_sqrt NInf = NaN"
| "Math_sqrt NaN = NaN"

fun Math_cos :: "jsnum \<Rightarrow> jsnum" where
  "Math_cos (Num a) = Num (cos a)"
| "Math_cos a = NaN"

fun Math_sin :: "jsnum \<Rightarrow> jsnum" where
  "Math_sin (Num a) = Num (sin a)"
| "Math_sin a = NaN"

fun Math_abs :: "jsnum \<Rightarrow> jsnum" where
  "Math_abs (Num a) = Num \<bar>a\<bar>"
| "Math_abs PInf = PInf"
| "Math_abs NInf = PInf"
| "Math_abs NaN = NaN"

fun Math_min :: "jsnum \<Rightarrow> jsnum \<Rightarrow> jsnum" where
  "Math_min NaN b = NaN"
| "Math_min a NaN = NaN"
| "Math_min a b = (if a \<le> b then a else b)"

fun Math_max :: "jsnum \<Rightarrow> jsnum \<Rightarrow> jsnum" where
  "Math_max NaN b = NaN"
| "Math_max a NaN = NaN"
| "Math_max a b = (if a \<le> b then b else a)"

text \<open>
  \<open>Math.pow\<close> follows the case list of \<open>Number::exponentiate\<close> in the language
  standard, with the unsigned zero of this model standing for \<open>+0\<close>.
\<close>

definition odd_integer :: "real \<Rightarrow> bool" where
  "odd_integer e = (e = of_int \<lfloor>e\<rfloor> \<and> odd \<lfloor>e\<rfloor>)"

fun Math_pow :: "jsnum \<Rightarrow> jsnum \<Rightarrow> jsnum" where
  "Math_pow b NaN = NaN"
| "Math_pow NaN (Num e) = (if e = 0 then Num 1 else NaN)"
| "Math_pow NaN e = NaN"
| "Math_pow PInf (Num e) = (if e = 0 then Num 1 else if 0 < e then PInf else Num 0)"
| "Math_pow PInf PInf = PInf"
| "Math_pow PInf NInf = Num 0"
| "Math_pow NInf (Num e) =
     (if e = 0 then Num 1
      else if 0 < e then (if odd_integer e then NInf else PInf)
      else Num 0)"
| "Math_pow NInf PInf = PInf"
| "Math_pow NInf NInf = Num 0"
| "Math_pow (Num b) PInf =
     (if b = 0 then Num 0
      else if 1 < \<bar>b\<bar> then PInf else if \<bar>b\<bar> = 1 then NaN else Num 0)"
| "Math_pow (Num b) NInf =
     (if b = 0 then PInf
      else if 1 < \<bar>b\<bar> then Num 0 else if \<bar>b\<bar> = 1 then NaN else PInf)"
| "Math_pow (Num b) (Num e) =
     (if e = 0 then Num 1
      else if b = 0 then (if 0 < e then Num 0 else PInf)
      else if 0 < b then Num (b powr e)
      else if e = of_int \<lfloor>e\<rfloor> then Num (power_int b \<lfloor>e\<rfloor>)
      else NaN)"

text \<open>
  Truthiness of a number, and the defaulting idiom \<open>a || d\<close> applied to a property that
  may be absent (\<open>None\<close> is \<open>undefined\<close>): the default is taken when the property is
  absent, zero or NaN.
\<close>

fun truthy :: "jsnum \<Rightarrow> bool" where
  "truthy (Num a) = (a \<noteq> 0)"
| "truthy NaN = False"
| "truthy a = True"

fun or_else :: "jsnum option \<Rightarrow> jsnum \<Rightarrow> jsnum" where
  "or_else None d = d"
| "or_else (Some a) d = (if truthy a then a else d)"

section \<open>Data of the physics simulation\<close>

record vec =
  vec_x :: jsnum
  vec_y :: jsnum

record color =
  col_r :: jsnum
  col_g :: jsnum
  col_b :: jsnum

text \<open>The argument of the constructor: every option may be absent.\<close>

record raw_options =
  particleCount :: "jsnum option"
  particleSpread :: "jsnum option"
  initialSpeed :: "jsnum option"
  velocityDamping :: "jsnum option"
  gravityStrength :: "jsnum option"
  updateRate :: "jsnum option"
  maxPlayers :: "jsnum option"
  prismRadius :: "jsnum option"

record options =
  particleCount :: jsnum
  particleSpread :: jsnum
  initialSpeed :: jsnum
  velocityDamping :: jsnum
  gravityStrength :: jsnum
  updateRate :: jsnum
  maxPlayers :: jsnum
  prismRadius :: jsnum

text \<open>
  The partial parameter object of \<open>addPlayer\<close> and \<open>updatePlayerParams\<close>: \<open>None\<close> is
  a property that the object does not have.
\<close>

record params =
  position :: "vec option"
  gravityStrength :: "jsnum option"
  prismRadius :: "jsnum option"
  lensingStrength :: "jsnum option"
  prismStrength :: "jsnum option"
  prismDispersion :: "jsnum option"

text \<open>
  A stored player record. \<open>addPlayer\<close> creates it with five properties;
  \<open>prismDispersion\<close> exists only once \<open>updatePlayerParams\<close> has assigned it.
\<close>

record player =
  position :: vec
  gravityStrength :: jsnum
  prismRadius :: jsnum
  lensingStrength :: jsnum
  prismStrength :: jsnum
  prismDispersion :: "jsnum option"

text \<open>
  The state of a \<open>ServerPhysicsSimulation\<close>. The registry \<open>players\<close> is an object keyed
  by integer ids; it is kept as an association list in ascending key order, which is the
  order in which \<open>for ... in\<close> and \<open>Object.values\<close> enumerate integer keys.
  \<open>particleVirtualColors\<close> is \<open>None\<close> until the array is first created, and then maps
  an index to the class stored there. \<open>rand_used\<close> counts the calls of \<open>Math.random\<close>
  made so far: the k-th call returns the k-th element of a stream that the operations take
  as their first argument.
\<close>

record sim =
  options :: options
  particles :: "vec list"
  velocities :: "vec list"
  colors :: "color list"
  players :: "(nat \<times> player) list"
  running :: bool
  simulationTime :: jsnum
  particleVirtualColors :: "(nat \<Rightarrow> int option) option"
  rand_used :: nat

section \<open>The player registry\<close>

fun obj_set :: "(nat \<times> 'a) list \<Rightarrow> nat \<Rightarrow> 'a \<Rightarrow> (nat \<times> 'a) list" where
  "obj_set [] k v = [(k, v)]"
| "obj_set ((k', v') # r) k v =
     (if k = k' then (k, v) # r
      else if k < k' then (k, v) # (k', v') # r
      else (k', v') # obj_set r k v)"

fun obj_delete :: "(nat \<times> 'a) list \<Rightarrow> nat \<Rightarrow> (nat \<times> 'a) list" where
  "obj_delete [] k = []"
| "obj_delete ((k', v') # r) k = (if k = k' then r else (k', v') # obj_delete r k)"

definition addPlayer :: "nat \<Rightarrow> params \<Rightarrow> sim \<Rightarrow> player \<times> sim" where
  "addPlayer playerId initialParams s =
     (let p = \<lparr> position = (case params.position initialParams of
                               Some q \<Rightarrow> q
                             | None \<Rightarrow> \<lparr> vec_x = Num 0, vec_y = Num 0 \<rparr>),
                gravityStrength = or_else (params.gravityStrength initialParams)
                                    (options.gravityStrength (options s) * Num 1.5),
                prismRadius = or_else (params.prismRadius initialParams)
                                (options.prismRadius (options s)),
                lensingStrength = or_else (params.lensingStrength initialParams) (Num 3.0),
                prismStrength = or_else (params.prismStrength initialParams) (Num 2.0),
                prismDispersion = None \<rparr>
      in (p, s\<lparr> players := obj_set (players s) playerId p \<rparr>))"

definition removePlayer :: "nat \<Rightarrow> sim \<Rightarrow> bool \<times> sim" where
  "removePlayer playerId s =
     (case map_of (players s) playerId of
        Some p \<Rightarrow> (True, s\<lparr> players := obj_delete (players s) playerId \<rparr>)
      | None \<Rightarrow> (False, s))"

definition updatePlayerPosition :: "nat \<Rightarrow> vec \<Rightarrow> sim \<Rightarrow> bool \<times> sim" where
  "updatePlayerPosition playerId pos s =
     (case map_of (players s) playerId of
        Some p \<Rightarrow> (True, s\<lparr> players := obj_set (players s) playerId (p\<lparr> position := pos \<rparr>) \<rparr>)
      | None \<Rightarrow> (False, s))"

text \<open>\<open>Object.assign\<close>: every property that the source object has overwrites the target's.\<close>

definition Object_assign :: "player \<Rightarrow> params \<Rightarrow> player" where
  "Object_assign p q =
     \<lparr> position = (case params.position q of Some v \<Rightarrow> v | None \<Rightarrow> position p),
       gravityStrength =
         (case params.gravityStrength q of Some v \<Rightarrow> v | None \<Rightarrow> gravityStrength p),
       prismRadius = (case params.prismRadius q of Some v \<Rightarrow> v | None \<Rightarrow> prismRadius p),
       lensingStrength =
         (case params.lensingStrength q of Some v \<Rightarrow> v | None \<Rightarrow> lensingStrength p),
       prismStrength =
         (case params.prismStrength q of Some v \<Rightarrow> v | None \<Rightarrow> prismStrength p),
       prismDispersion =
         (case params.prismDispersion q of Some v \<Rightarrow> Some v | None \<Rightarrow> prismDispersion p) \<rparr>"

definition updatePlayerParams :: "nat \<Rightarrow> params \<Rightarrow> sim \<Rightarrow> bool \<times> sim" where
  "updatePlayerParams playerId q s =
     (case map_of (players s) playerId of
        Some p \<Rightarrow> (True, s\<lparr> players := obj_set (players s) playerId (Object_assign p q) \<rparr>)
      | None \<Rightarrow> (False, s))"

text \<open>
  The four operations on the registry as data, so that a history of the registry is a
  list: the player that an operation addresses, and its effect on the simulation.
\<close>

datatype registry_op =
    AddPlayer nat params
  | RemovePlayer nat
  | UpdatePlayerPosition nat vec
  | UpdatePlayerParams nat params

fun op_player :: "registry_op \<Rightarrow> nat" where
  "op_player (AddPlayer playerId q) = playerId"
| "op_player (RemovePlayer playerId) = playerId"
| "op_player (UpdatePlayerPosition playerId pos) = playerId"
| "op_player (UpdatePlayerParams playerId q) = playerId"

fun apply_op :: "registry_op \<Rightarrow> sim \<Rightarrow> sim" where
  "apply_op (AddPlayer playerId q) s = snd (addPlayer playerId q s)"
| "apply_op (RemovePlayer playerId) s = snd (removePlayer playerId s)"
| "apply_op (UpdatePlayerPosition playerId pos) s = snd (updatePlayerPosition playerId pos s)"
| "apply_op (UpdatePlayerParams playerId q) s = snd (updatePlayerParams playerId q s)"

section \<open>Construction\<close>

text \<open>The defaults that the constructor merges under the options it is given.\<close>

definition resolve_options :: "raw_options \<Rightarrow> options" where
  "resolve_options opts =
     \<lparr> particleCount = or_else (raw_options.particleCount opts) (Num 2000),
       particleSpread = or_else (raw_options.particleSpread opts) (Num 800),
       initialSpeed = or_else (raw_options.initialSpeed opts) (Num 5.0),
       velocityDamping = or_else (raw_options.velocityDamping opts) (Num 0.98),
       gravityStrength = or_else (raw_options.gravityStrength opts) (Num 1.0),
       updateRate = or_else (raw_options.updateRate opts) (Num 30),
       maxPlayers = or_else (raw_options.maxPlayers opts) (Num 20),
       prismRadius = or_else (raw_options.prismRadius opts) (Num 50) \<rparr>"

definition no_options :: raw_options where
  "no_options =
     \<lparr> raw_options.particleCount = None, raw_options.particleSpread = None,
       raw_options.initialSpeed = None, raw_options.velocityDamping = None,
       raw_options.gravityStrength = None, raw_options.updateRate = None,
       raw_options.maxPlayers = None, raw_options.prismRadius = None \<rparr>"

text \<open>The empty parameter object \<open>{}\<close>, the default argument of \<open>addPlayer\<close>.\<close>

definition no_params :: params where
  "no_params =
     \<lparr> params.position = None, params.gravityStrength = None,
       params.prismRadius = None, params.lensingStrength = None,
       params.prismStrength = None, params.prismDispersion = None \<rparr>"

text \<open>
  The state that the constructor sets up before it calls \<open>initParticles\<close>; \<open>k\<close> is the
  number of random draws made before the simulation was created.
\<close>

definition fresh :: "options \<Rightarrow> nat \<Rightarrow> sim" where
  "fresh opts k =
     \<lparr> options = opts, particles = [], velocities = [], colors = [], players = [],
       running = False, simulationTime = Num 0, particleVirtualColors = None,
       rand_used = k \<rparr>"

section \<open>Filling the particle pool\<close>

text \<open>
  One round of the loop of \<open>initParticles\<close>: a particle, its velocity and its colour are
  pushed, and the random draws are taken in the order of the source.
\<close>

definition initParticle :: "(nat \<Rightarrow> real) \<Rightarrow> sim \<Rightarrow> sim" where
  "initParticle rand s =
     (let opts = options s;
          k = rand_used s;
          radius =
            (if Num (rand k) < Num 0.7 then
               options.prismRadius opts * Num 0.5
                 + options.particleSpread opts * Math_sqrt (Num (rand (k + 1)) * Num 0.8)
             else options.prismRadius opts * Math_sqrt (Num (rand (k + 1))));
          theta = Num (rand (k + 2)) * Math_PI * Num 2;
          particle = \<lparr> vec_x = radius * Math_cos theta, vec_y = radius * Math_sin theta \<rparr>;
          (velocity, k1) =
            (if radius > Num 0.1 then
               (let perpX = - vec_y particle / radius;
                    perpY = vec_x particle / radius;
                    speed = options.initialSpeed opts * (Num 0.8 + Num (rand (k + 3)) * Num 0.4)
                in (\<lparr> vec_x = perpX * speed, vec_y = perpY * speed \<rparr>, k + 4))
             else
               (\<lparr> vec_x = Num (rand (k + 3)) * options.initialSpeed opts
                            - options.initialSpeed opts / Num 2,
                  vec_y = Num (rand (k + 4)) * options.initialSpeed opts
                            - options.initialSpeed opts / Num 2 \<rparr>, k + 5));
          color = \<lparr> col_r = Num (rand k1), col_g = Num (rand (k1 + 1)),
                    col_b = Num (rand (k1 + 2)) \<rparr>
      in s\<lparr> particles := particles s @ [particle],
            velocities := velocities s @ [velocity],
            colors := colors s @ [color],
            rand_used := k1 + 3 \<rparr>)"

text \<open>
  The loop \<open>for (let i = 0; i < count; i++)\<close>. With a count of positive infinity the test
  never fails and the loop does not end; \<open>initParticles\<close> then has no result, and the
  recursion below is cut off for that one count so that it is a total function.
\<close>

function initLoop :: "(nat \<Rightarrow> real) \<Rightarrow> jsnum \<Rightarrow> nat \<Rightarrow> sim \<Rightarrow> sim" where
  "initLoop rand count i s =
     (if count \<noteq> PInf \<and> Num (real i) < count
      then initLoop rand count (Suc i) (initParticle rand s)
      else s)"
  by pat_completeness auto
termination
proof (relation "measure (\<lambda>(rand, count, i, s). (case count of Num c \<Rightarrow> nat \<lceil>c\<rceil> | _ \<Rightarrow> 0) - i)")
  show "wf (measure (\<lambda>(rand, count, i, s). (case count of Num c \<Rightarrow> nat \<lceil>c\<rceil> | _ \<Rightarrow> 0) - i))"
    by simp
next
  fix rand :: "nat \<Rightarrow> real" and count :: jsnum and i :: nat and s :: sim
  assume a: "count \<noteq> PInf \<and> Num (real i) < count"
  then obtain c where c: "count = Num c" and lt: "real i < c"
    by (cases count) auto
  from lt have "i < nat \<lceil>c\<rceil>"
    by linarith
  then show "((rand, count, Suc i, initParticle rand s), (rand, count, i, s))
        \<in> measure (\<lambda>(rand, count, i, s). (case count of Num c \<Rightarrow> nat \<lceil>c\<rceil> | _ \<Rightarrow> 0) - i)"
    using c by simp
qed

declare initLoop.simps [simp del]

definition initParticles :: "(nat \<Rightarrow> real) \<Rightarrow> sim \<Rightarrow> sim option" where
  "initParticles rand s =
     (let count = options.particleCount (options s)
      in if count = PInf then None
         else Some (initLoop rand count 0 (s\<lparr> particles := [], velocities := [], colors := [] \<rparr>)))"

text \<open>The constructor: defaults, empty state, then \<open>initParticles\<close>.\<close>

definition new_sim :: "(nat \<Rightarrow> real) \<Rightarrow> raw_options \<Rightarrow> nat \<Rightarrow> sim option" where
  "new_sim rand opts k = initParticles rand (fresh (resolve_options opts) k)"

section \<open>The time scale of a physics step\<close>

definition timeScale :: "jsnum \<Rightarrow> jsnum" where
  "timeScale deltaTime = Math_min (deltaTime / (Num 1000 / Num 60)) (Num 2.0)"

section \<open>The physics step\<close>

text \<open>
  The step is the one of the colour-modulated simulation, which has the colour force and
  the virtual colour classes. The plain simulation lacks these two and the array of
  colours; its registry methods, time scale, central attraction, damping and boundary
  handling are the same text.

  A loop whose body may throw: \<open>None\<close> is the exception leaving the loop.
\<close>

fun forEach :: "('a \<Rightarrow> 'b \<Rightarrow> 'b option) \<Rightarrow> 'a list \<Rightarrow> 'b \<Rightarrow> 'b option" where
  "forEach f [] b = Some b"
| "forEach f (a # as) b = (case f a b of None \<Rightarrow> None | Some b' \<Rightarrow> forEach f as b')"

text \<open>
  The colour-dependent prism force of one player on one particle (the body of
  \<open>Object.values(this.players).forEach\<close>). It works on the velocity and the count of random
  draws. Reading \<open>color.r\<close> of a missing colour throws.
\<close>

definition colorForce ::
  "(nat \<Rightarrow> real) \<Rightarrow> jsnum \<Rightarrow> vec \<Rightarrow> color option \<Rightarrow> player \<Rightarrow> vec \<times> nat \<Rightarrow> (vec \<times> nat) option"
where
  "colorForce rand ts particle color pl vk =
     (case vk of (velocity, k) \<Rightarrow>
      let toCenterX = vec_x (position pl) - vec_x particle;
          toCenterY = vec_y (position pl) - vec_y particle;
          centerDist = Math_sqrt (toCenterX * toCenterX + toCenterY * toCenterY)
      in if centerDist < prismRadius pl * Num 1.5 then
           (case color of
              None \<Rightarrow> None
            | Some c \<Rightarrow>
               let dirX = toCenterX / centerDist;
                   dirY = toCenterY / centerDist;
                   dispersionForce =
                     (if centerDist < prismRadius pl then
                        (let normalizedDist = centerDist / prismRadius pl
                         in prismStrength pl * Num 2.0 * normalizedDist)
                      else
                        (let outsideDistance = centerDist - prismRadius pl;
                             falloff = Math_max (Num 0)
                                         (Num 1 - outsideDistance / (prismRadius pl * Num 0.5))
                         in - prismStrength pl * Num 0.5 * falloff));
                   dispersionMultiplier = lensingStrength pl * Num 1.5;
                   rForce = dispersionForce * (Num 1.0 - dispersionMultiplier * Num 0.8);
                   gForce = dispersionForce;
                   bForce = dispersionForce * (Num 1.0 + dispersionMultiplier * Num 1.0);
                   redDominance =
                     col_r c / Math_max (Num 0.01) (Math_max (col_g c) (col_b c));
                   greenDominance =
                     col_g c / Math_max (Num 0.01) (Math_max (col_r c) (col_b c));
                   blueDominance =
                     col_b c / Math_max (Num 0.01) (Math_max (col_r c) (col_g c));
                   (dominantForce, perpX, perpY, k1) =
                     (if redDominance > Num 1.3 then
                        (rForce * Num 0.3,
                         - dirY * Num 0.6 * lensingStrength pl,
                         dirX * Num 0.6 * lensingStrength pl,
                         k)
                      else if greenDominance > Num 1.3 then
                        (gForce * Num 0.6,
                         (- dirY * Num 0.7 + dirX * Num 0.3) * Num 0.3 * lensingStrength pl,
                         (dirX * Num 0.7 + dirY * Num 0.3) * Num 0.3 * lensingStrength pl,
                         k)
                      else if blueDominance > Num 1.3 then
                        (bForce * Num 1.5,
                         dirY * Num 0.7 * lensingStrength pl,
                         - dirX * Num 0.7 * lensingStrength pl,
                         k)
                      else
                        (let colorSum = col_r c + col_g c + col_b c;
                             perpFactor =
                               Num 0.3 * lensingStrength pl * (Num (rand k) - Num 0.5)
                         in ((col_r c * rForce + col_g c * gForce + col_b c * bForce)
                               / Math_max (Num 0.1) colorSum,
                             dirY * perpFactor,
                             - dirX * perpFactor,
                             k + 1)));
                   jitter = (Num (rand k1) * Num 0.5 - Num 0.25) * dispersionForce
                              * lensingStrength pl
               in Some (\<lparr> vec_x = vec_x velocity
                                    - (dirX * (dominantForce + jitter) - perpX) * ts,
                          vec_y = vec_y velocity
                                    - (dirY * (dominantForce + jitter) - perpY) * ts \<rparr>,
                        k1 + 1))
         else Some vk)"

text \<open>The weak attraction toward the origin.\<close>

definition centralGravity :: "options \<Rightarrow> jsnum \<Rightarrow> vec \<Rightarrow> vec \<Rightarrow> vec" where
  "centralGravity opts ts particle velocity =
     (let toCenterX = - vec_x particle;
          toCenterY = - vec_y particle;
          centerDist = Math_sqrt (toCenterX * toCenterX + toCenterY * toCenterY)
      in if centerDist > Num 1.0 then
           (let centralForce =
                  Num 0.01 * options.gravityStrength opts / (centerDist * centerDist) * ts
            in \<lparr> vec_x = vec_x velocity + toCenterX / centerDist * centralForce,
                 vec_y = vec_y velocity + toCenterY / centerDist * centralForce \<rparr>)
         else velocity)"

text \<open>
  The virtual colour classes. The array is created on first use, with one draw per
  particle; \<open>n\<close> is \<open>this.particles.length\<close>.
\<close>

definition initVirtualColors :: "(nat \<Rightarrow> real) \<Rightarrow> nat \<Rightarrow> nat \<Rightarrow> nat \<Rightarrow> int option" where
  "initVirtualColors rand k n = fold (\<lambda>j a. a(j \<mapsto> \<lfloor>rand (k + j) * 6\<rfloor>)) [0..<n] Map.empty"

text \<open>
  \<open>this.particleVirtualColors[i] || (this.particleVirtualColors[i] = Math.floor(Math.random() * 6))\<close>,
  after the array has been created if it was missing. The result is the class used, the
  array and the count of draws.
\<close>

definition virtualColorOf ::
  "(nat \<Rightarrow> real) \<Rightarrow> nat \<Rightarrow> nat \<Rightarrow> (nat \<Rightarrow> int option) option \<times> nat
     \<Rightarrow> int \<times> (nat \<Rightarrow> int option) \<times> nat"
where
  "virtualColorOf rand n i vck =
     (case vck of (vc, k) \<Rightarrow>
      let (a, k1) = (case vc of
                       None \<Rightarrow> (initVirtualColors rand k n, k + n)
                     | Some a \<Rightarrow> (a, k));
          assigned = (\<lfloor>rand k1 * 6\<rfloor>, a(i \<mapsto> \<lfloor>rand k1 * 6\<rfloor>), k1 + 1)
      in (case a i of
            None \<Rightarrow> assigned
          | Some c \<Rightarrow> if c \<noteq> 0 then (c, a, k1) else assigned))"

text \<open>
  Gravity, lensing and the prism of one player on particle \<open>i\<close> (the body of
  \<open>for (const playerId in this.players)\<close>). It works on the velocity, the count of random
  draws and the array of virtual colours.
\<close>

definition playerGravity ::
  "(nat \<Rightarrow> real) \<Rightarrow> jsnum \<Rightarrow> nat \<Rightarrow> nat \<Rightarrow> vec \<Rightarrow> player
     \<Rightarrow> vec \<times> nat \<times> (nat \<Rightarrow> int option) option
     \<Rightarrow> vec \<times> nat \<times> (nat \<Rightarrow> int option) option"
where
  "playerGravity rand ts n i particle pl st =
     (case st of (velocity, k, vc) \<Rightarrow>
      let toPlayerX = vec_x (position pl) - vec_x particle;
          toPlayerY = vec_y (position pl) - vec_y particle;
          playerDist = Math_sqrt (toPlayerX * toPlayerX + toPlayerY * toPlayerY)
      in if playerDist > Num 0.1 then
           (let gravityForce =
                  gravityStrength pl / Math_max (playerDist * Num 0.1) (Num 0.5) * ts;
                lensingForce =
                  lensingStrength pl / Math_max (playerDist * Num 0.05) (Num 0.1) * ts;
                totalForce = gravityForce + lensingForce;
                norm = Num 1 / playerDist;
                v1 = \<lparr> vec_x = vec_x velocity + toPlayerX * norm * totalForce,
                       vec_y = vec_y velocity + toPlayerY * norm * totalForce \<rparr>
            in if playerDist < prismRadius pl * Num 1.5 then
                 (if playerDist < prismRadius pl then
                    (let normalizedDist = playerDist / prismRadius pl;
                         strength = or_else (Some (prismStrength pl)) (Num 2.0);
                         (virtualColor, a, k2) = virtualColorOf rand n i (vc, k);
                         dispersionStrength = or_else (prismDispersion pl) (Num 3.0);
                         (colorFactor, perpFactor, perpSign, k3) =
                           (if virtualColor < 2 then
                              (Num 0.7 - dispersionStrength * Num 0.15,
                               Num 0.6 * dispersionStrength * ts,
                               Num (- 1),
                               k2)
                            else if virtualColor < 4 then
                              (Num 1.0,
                               Num 0.3 * dispersionStrength * ts,
                               (if Num (rand k2) < Num 0.5 then Num (- 1) else Num 1),
                               k2 + 1)
                            else
                              (Num 1.3 + dispersionStrength * Num 0.2,
                               Num 0.7 * dispersionStrength * ts,
                               Num 1,
                               k2));
                         effectMultiplier = strength * Num 1.5;
                         prismForce = normalizedDist * ts * effectMultiplier * colorFactor;
                         v2 = \<lparr> vec_x = vec_x v1 - toPlayerX * norm * prismForce,
                                vec_y = vec_y v1 - toPlayerY * norm * prismForce \<rparr>;
                         perpX = - toPlayerY * norm * perpSign;
                         perpY = toPlayerX * norm * perpSign;
                         perpStrength = Math_abs prismForce * perpFactor * effectMultiplier;
                         v3 = \<lparr> vec_x = vec_x v2 + perpX * perpStrength,
                                vec_y = vec_y v2 + perpY * perpStrength \<rparr>;
                         jitterStrength = prismForce * Num 0.4 * dispersionStrength;
                         v4 = \<lparr> vec_x = vec_x v3 + (Num (rand k3) - Num 0.5) * jitterStrength,
                                vec_y = vec_y v3
                                          + (Num (rand (k3 + 1)) - Num 0.5) * jitterStrength \<rparr>
                     in (v4, k3 + 2, Some a))
                  else
                    (let outsideDistance = playerDist - prismRadius pl;
                         falloff = Math_max (Num 0)
                                     (Num 1 - outsideDistance / (prismRadius pl * Num 0.5));
                         prismForce = Num (- 0.1) * prismStrength pl * falloff * ts
                     in (\<lparr> vec_x = vec_x v1 + toPlayerX * norm * prismForce
                                         * (Num 0.8 + Num (rand k) * Num 0.4),
                           vec_y = vec_y v1 + toPlayerY * norm * prismForce
                                         * (Num 0.8 + Num (rand (k + 1)) * Num 0.4) \<rparr>,
                         k + 2, vc)))
               else (v1, k, vc))
         else st)"

text \<open>
  The condition under which \<open>playerGravity\<close> takes its branch "inside prism", the only
  place where a virtual colour is read: the particle is farther than 0.1 from the player
  and nearer than the prism radius.
\<close>

definition insidePrism :: "vec \<Rightarrow> player \<Rightarrow> bool" where
  "insidePrism particle pl =
     (let toPlayerX = vec_x (position pl) - vec_x particle;
          toPlayerY = vec_y (position pl) - vec_y particle;
          playerDist = Math_sqrt (toPlayerX * toPlayerX + toPlayerY * toPlayerY)
      in playerDist > Num 0.1 \<and> playerDist < prismRadius pl * Num 1.5
         \<and> playerDist < prismRadius pl)"

text \<open>
  Damping, the move, and the boundary: beyond twice the spread a particle is respawned
  with probability 0.3 and bounced back otherwise.
\<close>

definition integrate ::
  "(nat \<Rightarrow> real) \<Rightarrow> options \<Rightarrow> jsnum \<Rightarrow> vec \<Rightarrow> vec \<Rightarrow> nat \<Rightarrow> vec \<times> vec \<times> nat"
where
  "integrate rand opts ts particle velocity k =
     (let v1 = \<lparr> vec_x = vec_x velocity * Math_pow (options.velocityDamping opts) ts,
                 vec_y = vec_y velocity * Math_pow (options.velocityDamping opts) ts \<rparr>;
          p1 = \<lparr> vec_x = vec_x particle + vec_x v1 * ts,
                 vec_y = vec_y particle + vec_y v1 * ts \<rparr>;
          maxDistance = options.particleSpread opts * Num 2;
          distanceFromCenter = Math_sqrt (vec_x p1 * vec_x p1 + vec_y p1 * vec_y p1)
      in if distanceFromCenter > maxDistance then
           (if Num (rand k) < Num 0.3 then
              (let newRadius = options.particleSpread opts * Math_sqrt (Num (rand (k + 1)));
                   newAngle = Num (rand (k + 2)) * Math_PI * Num 2;
                   p2 = \<lparr> vec_x = newRadius * Math_cos newAngle,
                          vec_y = newRadius * Math_sin newAngle \<rparr>;
                   perpX = - vec_y p2 / newRadius;
                   perpY = vec_x p2 / newRadius;
                   speed = options.initialSpeed opts
                             * (Num 0.8 + Num (rand (k + 3)) * Num 0.4)
               in (p2, \<lparr> vec_x = perpX * speed, vec_y = perpY * speed \<rparr>, k + 4))
            else
              (let factor = maxDistance / distanceFromCenter;
                   p2 = \<lparr> vec_x = vec_x p1 * factor * Num 0.9,
                          vec_y = vec_y p1 * factor * Num 0.9 \<rparr>;
                   normalX = - vec_x p2 / distanceFromCenter;
                   normalY = - vec_y p2 / distanceFromCenter;
                   dot = vec_x v1 * normalX + vec_y v1 * normalY
               in (p2,
                   \<lparr> vec_x = (vec_x v1 - Num 2 * dot * normalX) * Num 0.5,
                      vec_y = (vec_y v1 - Num 2 * dot * normalY) * Num 0.5 \<rparr>,
                   k + 1)))
         else (p1, v1, k))"

text \<open>
  One round of the loop over the particles. Reading a property of a missing velocity
  throws, and so does the colour force on a missing colour.
\<close>

definition stepParticle :: "(nat \<Rightarrow> real) \<Rightarrow> jsnum \<Rightarrow> nat \<Rightarrow> sim \<Rightarrow> sim option" where
  "stepParticle rand ts i s =
     (if i < length (velocities s) then
        (let particle = particles s ! i;
             velocity = velocities s ! i;
             color = (if i < length (colors s) then Some (colors s ! i) else None)
         in case forEach (colorForce rand ts particle color) (map snd (players s))
                   (velocity, rand_used s) of
              None \<Rightarrow> None
            | Some (v1, k1) \<Rightarrow>
               (let v2 = centralGravity (options s) ts particle v1;
                    (v3, k3, vc3) =
                      fold (playerGravity rand ts (length (particles s)) i particle)
                        (map snd (players s)) (v2, k1, particleVirtualColors s);
                    (p4, v4, k4) = integrate rand (options s) ts particle v3 k3
                in Some (s\<lparr> particles := (particles s)[i := p4],
                             velocities := (velocities s)[i := v4],
                             particleVirtualColors := vc3,
                             rand_used := k4 \<rparr>)))
      else None)"

definition updatePhysics :: "(nat \<Rightarrow> real) \<Rightarrow> jsnum \<Rightarrow> sim \<Rightarrow> sim option" where
  "updatePhysics rand deltaTime s =
     (let ts = timeScale deltaTime
      in case forEach (stepParticle rand ts) [0..<length (particles s)] s of
           None \<Rightarrow> None
         | Some s' \<Rightarrow> Some (s'\<lparr> simulationTime := simulationTime s' + deltaTime \<rparr>))"

text \<open>Consecutive physics steps, one per element of the list of elapsed times.\<close>

fun updatePhysics_steps :: "(nat \<Rightarrow> real) \<Rightarrow> jsnum list \<Rightarrow> sim \<Rightarrow> sim option" where
  "updatePhysics_steps rand [] s = Some s"
| "updatePhysics_steps rand (dt # dts) s =
     (case updatePhysics rand dt s of
        None \<Rightarrow> None
      | Some s' \<Rightarrow> updatePhysics_steps rand dts s')"

section \<open>The simulation clock\<close>

definition startSimulation :: "sim \<Rightarrow> sim" where
  "startSimulation s = (if running s then s else s\<lparr> running := True \<rparr>)"

definition stopSimulation :: "sim \<Rightarrow> sim" where
  "stopSimulation s = (if \<not> running s then s else s\<lparr> running := False \<rparr>)"

definition resetSimulation :: "(nat \<Rightarrow> real) \<Rightarrow> sim \<Rightarrow> sim option" where
  "resetSimulation rand s =
     (case initParticles rand (stopSimulation s) of
        None \<Rightarrow> None
      | Some s1 \<Rightarrow> Some (startSimulation (s1\<lparr> simulationTime := Num 0 \<rparr>)))"

section \<open>The server\<close>

text \<open>
  The frames that the server sends. A frame holds the values that \<open>JSON.stringify\<close> reads
  at the moment of sending. The text of a system message is represented by the particle
  count that it reports. The metrics are absent from the frames of the server variant that
  does not measure the physics step, and from the full state sent on connect.
\<close>

record metrics =
  physicsTime :: real
  avgPhysicsTime :: real
  particleCount :: nat
  playerCount :: nat

datatype frame =
    IdFrame nat
  | FullState "vec list" "(nat \<times> player) list" jsnum "metrics option"
  | ParticleUpdate "vec list" jsnum "metrics option"
  | PlayerUpdate nat params
  | Players "nat list"
  | SystemMessage jsnum

text \<open>
  A parsed inbound message of the wire protocol: its type, and the properties that the
  handler reads (a point, a partial parameter object, and a count that may be absent).
\<close>

record message =
  msg_type :: string
  msg_position :: vec
  msg_params :: params
  msg_count :: "jsnum option"

text \<open>
  The state of the server process. \<open>clients\<close> is the global object \<open>players\<close> of the
  server script, which maps a player id to its channel; a channel is identified by a
  number. \<open>outbox\<close> records, per channel, the frames handed to \<open>ws.send\<close>, oldest first.
  The channel is taken to accept every frame: \<open>ws.send\<close> does not throw, so the handlers
  that catch around it never reach their \<open>catch\<close>.
\<close>

record server =
  clients :: "(nat \<times> nat) list"
  nextPlayerId :: nat
  physicsSimulation :: sim
  lastFullUpdateTime :: int
  lastPhysicsTime :: real
  avgPhysicsTime :: real
  updateCount :: nat
  outbox :: "nat \<Rightarrow> frame list"

definition send :: "nat \<Rightarrow> frame \<Rightarrow> server \<Rightarrow> server" where
  "send ws f srv = srv\<lparr> outbox := (outbox srv)(ws := outbox srv ws @ [f]) \<rparr>"

text \<open>The loop \<open>for (const id in players) players[id].ws.send(message)\<close>.\<close>

definition broadcast :: "frame \<Rightarrow> server \<Rightarrow> server" where
  "broadcast f srv = fold (\<lambda>ws. send ws f) (map snd (clients srv)) srv"

definition broadcastPlayerList :: "server \<Rightarrow> server" where
  "broadcastPlayerList srv = broadcast (Players (map fst (clients srv))) srv"

definition broadcastPlayerUpdate :: "nat \<Rightarrow> params \<Rightarrow> server \<Rightarrow> server" where
  "broadcastPlayerUpdate playerId updateData srv = broadcast (PlayerUpdate playerId updateData) srv"

definition broadcastSystemMessage :: "jsnum \<Rightarrow> server \<Rightarrow> server" where
  "broadcastSystemMessage count srv = broadcast (SystemMessage count) srv"

definition getState :: "sim \<Rightarrow> vec list \<times> (nat \<times> player) list \<times> jsnum" where
  "getState s = (particles s, players s, simulationTime s)"

text \<open>\<open>Object.keys(players).find(id => players[id].ws === ws)\<close>\<close>

fun find_id :: "(nat \<times> nat) list \<Rightarrow> nat \<Rightarrow> nat option" where
  "find_id [] ws = None"
| "find_id ((k, w) # r) ws = (if w = ws then Some k else find_id r ws)"

definition on_open :: "nat \<Rightarrow> server \<Rightarrow> server" where
  "on_open ws srv =
     (let playerId = nextPlayerId srv;
          srv1 = srv\<lparr> nextPlayerId := playerId + 1,
                      clients := obj_set (clients srv) playerId ws \<rparr>;
          srv2 = srv1\<lparr> physicsSimulation :=
                          snd (addPlayer playerId no_params (physicsSimulation srv1)) \<rparr>;
          srv3 = send ws (IdFrame playerId) srv2;
          srv4 = (case getState (physicsSimulation srv3) of
                    (ps, pl, t) \<Rightarrow> send ws (FullState ps pl t None) srv3)
      in broadcastPlayerList srv4)"

text \<open>
  The message handler. \<open>None\<close> as the message is a text that \<open>JSON.parse\<close> rejects: the
  exception is caught and nothing changes. The result \<open>None\<close> is a handler that does not
  return.
\<close>

definition on_message :: "(nat \<Rightarrow> real) \<Rightarrow> nat \<Rightarrow> message option \<Rightarrow> server \<Rightarrow> server option" where
  "on_message rand ws raw srv =
     (case raw of
        None \<Rightarrow> Some srv
      | Some data \<Rightarrow>
         (case find_id (clients srv) ws of
            None \<Rightarrow> Some srv
          | Some playerId \<Rightarrow>
             if msg_type data = ''updatePosition'' then
               Some (broadcastPlayerUpdate playerId
                       (no_params\<lparr> params.position := Some (msg_position data) \<rparr>)
                       (srv\<lparr> physicsSimulation :=
                              snd (updatePlayerPosition playerId (msg_position data)
                                     (physicsSimulation srv)) \<rparr>))
             else if msg_type data = ''updateParams'' then
               Some (broadcastPlayerUpdate playerId (msg_params data)
                       (srv\<lparr> physicsSimulation :=
                              snd (updatePlayerParams playerId (msg_params data)
                                     (physicsSimulation srv)) \<rparr>))
             else if msg_type data = ''setParticleCount'' then
               (case msg_count data of
                  None \<Rightarrow> Some srv
                | Some count \<Rightarrow>
                   if truthy count then
                     (let s1 = (physicsSimulation srv)
                                 \<lparr> options := (options (physicsSimulation srv))
                                     \<lparr> options.particleCount :=
                                         Math_min (Num 10000) (Math_max (Num 500) count) \<rparr> \<rparr>
                      in case resetSimulation rand s1 of
                           None \<Rightarrow> None
                         | Some s2 \<Rightarrow>
                             Some (broadcastSystemMessage (options.particleCount (options s2))
                                     (srv\<lparr> physicsSimulation := s2 \<rparr>)))
                   else Some srv)
             else Some srv))"

definition on_close :: "nat \<Rightarrow> server \<Rightarrow> server" where
  "on_close ws srv =
     (case find_id (clients srv) ws of
        None \<Rightarrow> srv
      | Some playerId \<Rightarrow>
          broadcastPlayerList
            (srv\<lparr> clients := obj_delete (clients srv) playerId,
                  physicsSimulation :=
                    snd (removePlayer playerId (physicsSimulation srv)) \<rparr>))"

text \<open>
  The physics timer of the measuring server variant: the step, then the duration of the
  step (an input of the model) enters the moving average over a window of 50.
\<close>

definition avgWindow :: nat where
  "avgWindow = 50"

definition physics_timer :: "(nat \<Rightarrow> real) \<Rightarrow> jsnum \<Rightarrow> real \<Rightarrow> server \<Rightarrow> server option" where
  "physics_timer rand deltaTime elapsed srv =
     (if running (physicsSimulation srv) then
        (case updatePhysics rand deltaTime (physicsSimulation srv) of
           None \<Rightarrow> None
         | Some s' \<Rightarrow>
             Some (srv\<lparr> physicsSimulation := s',
                        lastPhysicsTime := elapsed,
                        updateCount := updateCount srv + 1,
                        avgPhysicsTime :=
                          avgPhysicsTime srv
                            + (elapsed - avgPhysicsTime srv)
                                / real (min (updateCount srv + 1) avgWindow) \<rparr>))
      else Some srv)"

text \<open>
  The broadcast timer, in its two variants: the one of the measuring server, with a full
  state every 200 ms and metrics in every frame, and the one of the plain server, with a
  full state every 100 ms and no metrics.
\<close>

definition perfMetrics :: "server \<Rightarrow> metrics" where
  "perfMetrics srv =
     \<lparr> physicsTime = lastPhysicsTime srv,
       avgPhysicsTime = server.avgPhysicsTime srv,
       particleCount = length (particles (physicsSimulation srv)),
       playerCount = length (clients srv) \<rparr>"

definition broadcast_timer :: "int \<Rightarrow> server \<Rightarrow> server" where
  "broadcast_timer now srv =
     (let perf = perfMetrics srv
      in if now - lastFullUpdateTime srv < 200 then
           (case getState (physicsSimulation srv) of
              (ps, pl, t) \<Rightarrow> broadcast (ParticleUpdate ps t (Some perf)) srv)
         else
           (let srv1 = srv\<lparr> lastFullUpdateTime := now \<rparr>
            in case getState (physicsSimulation srv1) of
                 (ps, pl, t) \<Rightarrow> broadcast (FullState ps pl t (Some perf)) srv1))"

definition broadcast_timer_plain :: "int \<Rightarrow> server \<Rightarrow> server" where
  "broadcast_timer_plain now srv =
     (if now - lastFullUpdateTime srv < 100 then
        (case getState (physicsSimulation srv) of
           (ps, pl, t) \<Rightarrow> broadcast (ParticleUpdate ps t None) srv)
      else
        (let srv1 = srv\<lparr> lastFullUpdateTime := now \<rparr>
         in case getState (physicsSimulation srv1) of
              (ps, pl, t) \<Rightarrow> broadcast (FullState ps pl t None) srv1))"

text \<open>
  The events of the single-threaded process, and a run of the server over a trace. The
  flag tells the measuring variant of the server script from the plain one, whose physics
  timer calls \<open>updatePhysics\<close> directly.
\<close>

datatype event =
    Open nat
  | Message nat "message option"
  | Close nat
  | PhysicsTimer jsnum real
  | BroadcastTimer int

fun handle :: "bool \<Rightarrow> (nat \<Rightarrow> real) \<Rightarrow> event \<Rightarrow> server \<Rightarrow> server option" where
  "handle measuring rand (Open ws) srv = Some (on_open ws srv)"
| "handle measuring rand (Message ws raw) srv = on_message rand ws raw srv"
| "handle measuring rand (Close ws) srv = Some (on_close ws srv)"
| "handle measuring rand (PhysicsTimer deltaTime elapsed) srv =
     (if measuring then physics_timer rand deltaTime elapsed srv
      else if running (physicsSimulation srv) then
        (case updatePhysics rand deltaTime (physicsSimulation srv) of
           None \<Rightarrow> None
         | Some s' \<Rightarrow> Some (srv\<lparr> physicsSimulation := s' \<rparr>))
      else Some srv)"
| "handle measuring rand (BroadcastTimer now) srv =
     Some (if measuring then broadcast_timer now srv else broadcast_timer_plain now srv)"

definition run :: "bool \<Rightarrow> (nat \<Rightarrow> real) \<Rightarrow> event list \<Rightarrow> server \<Rightarrow> server option" where
  "run measuring rand evs srv = forEach (handle measuring rand) evs srv"

text \<open>
  The state in which the server script starts serving: the simulation it has constructed
  is started, the registry of channels is empty, and nothing has been sent.
\<close>

definition server_start :: "sim \<Rightarrow> int \<Rightarrow> server" where
  "server_start s now =
     \<lparr> clients = [], nextPlayerId = 1, physicsSimulation = startSimulation s,
       lastFullUpdateTime = now, lastPhysicsTime = 0, avgPhysicsTime = 0,
       updateCount = 0, outbox = (\<lambda>ws. []) \<rparr>"

text \<open>A stream of random draws that are all zero, for concrete runs.\<close>

definition zero_rand :: "nat \<Rightarrow> real" where
  "zero_rand k = 0"

text \<open>A stream of random draws that are all 0.9; \<open>floor(6 * 0.9)\<close> is the class 5.\<close>

definition high_rand :: "nat \<Rightarrow> real" where
  "high_rand k = 9 / 10"

text \<open>
  A stream of random draws whose first element is 0.75 and whose other elements are zero.
  With it the first particle of a pool is placed at the origin.
\<close>

definition origin_rand :: "nat \<Rightarrow> real" where
  "origin_rand k = (if k = 0 then 3 / 4 else 0)"

text \<open>
  A small simulation for concrete runs: default options, and a pool of one particle at
  rest at the point (1, 0).
\<close>

definition one_particle :: sim where
  "one_particle =
     (fresh (resolve_options no_options) 0)
       \<lparr> particles := [\<lparr> vec_x = Num 1, vec_y = Num 0 \<rparr>],
         velocities := [\<lparr> vec_x = Num 0, vec_y = Num 0 \<rparr>],
         colors := [\<lparr> col_r = Num 0, col_g = Num 0, col_b = Num 0 \<rparr>] \<rparr>"

section \<open>Properties of the registry\<close>

lemma map_of_obj_set_same: "map_of (obj_set r k v) k = Some v"
  by (induction r) auto

lemma addPlayer_fst:
  "fst (addPlayer playerId initialParams s) =
     \<lparr> position = (case params.position initialParams of
                     Some q \<Rightarrow> q
                   | None \<Rightarrow> \<lparr> vec_x = Num 0, vec_y = Num 0 \<rparr>),
       gravityStrength = or_else (params.gravityStrength initialParams)
                           (options.gravityStrength (options s) * Num 1.5),
       prismRadius = or_else (params.prismRadius initialParams)
                       (options.prismRadius (options s)),
       lensingStrength = or_else (params.lensingStrength initialParams) (Num 3.0),
       prismStrength = or_else (params.prismStrength initialParams) (Num 2.0),
       prismDispersion = None \<rparr>"
  by (simp add: addPlayer_def Let_def)

lemma addPlayer_snd:
  "snd (addPlayer playerId initialParams s) =
     s\<lparr> players := obj_set (players s) playerId (fst (addPlayer playerId initialParams s)) \<rparr>"
  by (simp add: addPlayer_def Let_def)

text \<open>
  C5. \<open>addPlayer\<close> stores the record it returns. Each of \<open>position\<close>,
  \<open>gravityStrength\<close>, \<open>prismRadius\<close>, \<open>lensingStrength\<close> and \<open>prismStrength\<close> is,
  independently of the others, the override when the override is present and truthy
  (for a number: neither zero nor NaN), and the default otherwise: the origin,
  1.5 times the configured gravity strength, the configured prism radius, 3.0 and 2.0.
\<close>

theorem addPlayer_merges_truthy_overrides:
  assumes "addPlayer playerId initialParams s = (p, s')"
  shows "map_of (players s') playerId = Some p
       \<and> position p = (case params.position initialParams of
                          Some q \<Rightarrow> q | None \<Rightarrow> \<lparr> vec_x = Num 0, vec_y = Num 0 \<rparr>)
       \<and> gravityStrength p =
           (case params.gravityStrength initialParams of
              Some v \<Rightarrow> if truthy v then v
                        else options.gravityStrength (options s) * Num 1.5
            | None \<Rightarrow> options.gravityStrength (options s) * Num 1.5)
       \<and> prismRadius p =
           (case params.prismRadius initialParams of
              Some v \<Rightarrow> if truthy v then v else options.prismRadius (options s)
            | None \<Rightarrow> options.prismRadius (options s))
       \<and> lensingStrength p =
           (case params.lensingStrength initialParams of
              Some v \<Rightarrow> if truthy v then v else Num 3 | None \<Rightarrow> Num 3)
       \<and> prismStrength p =
           (case params.prismStrength initialParams of
              Some v \<Rightarrow> if truthy v then v else Num 2 | None \<Rightarrow> Num 2)"
proof -
  have p: "p = fst (addPlayer playerId initialParams s)"
    and s': "s' = snd (addPlayer playerId initialParams s)"
    using assms by simp_all
  have "map_of (players s') playerId = Some p"
    unfolding s' addPlayer_snd p by (simp add: map_of_obj_set_same)
  moreover have "position p = (case params.position initialParams of
      Some q \<Rightarrow> q | None \<Rightarrow> \<lparr> vec_x = Num 0, vec_y = Num 0 \<rparr>)"
    unfolding p addPlayer_fst by simp
  moreover have "gravityStrength p =
      (case params.gravityStrength initialParams of
         Some v \<Rightarrow> if truthy v then v
                   else options.gravityStrength (options s) * Num 1.5
       | None \<Rightarrow> options.gravityStrength (options s) * Num 1.5)"
    unfolding p addPlayer_fst by (simp split: option.split)
  moreover have "prismRadius p =
      (case params.prismRadius initialParams of
         Some v \<Rightarrow> if truthy v then v else options.prismRadius (options s)
       | None \<Rightarrow> options.prismRadius (options s))"
    unfolding p addPlayer_fst by (simp split: option.split)
  moreover have "lensingStrength p =
      (case params.lensingStrength initialParams of
         Some v \<Rightarrow> if truthy v then v else Num 3 | None \<Rightarrow> Num 3)"
    unfolding p addPlayer_fst by (simp split: option.split)
  moreover have "prismStrength p =
      (case params.prismStrength initialParams of
         Some v \<Rightarrow> if truthy v then v else Num 2 | None \<Rightarrow> Num 2)"
    unfolding p addPlayer_fst by (simp split: option.split)
  ultimately show ?thesis by blast
qed

theorem addPlayer_merges_truthy_overrides_witness:
  "map_of (players (snd (addPlayer 1 (no_params\<lparr> params.lensingStrength := Some (Num 7) \<rparr>)
                           (fresh (resolve_options no_options) 0)))) 1
     = Some (fst (addPlayer 1 (no_params\<lparr> params.lensingStrength := Some (Num 7) \<rparr>)
                    (fresh (resolve_options no_options) 0)))
   \<and> lensingStrength (fst (addPlayer 1 (no_params\<lparr> params.lensingStrength := Some (Num 7) \<rparr>)
                             (fresh (resolve_options no_options) 0))) = Num 7
   \<and> prismStrength (fst (addPlayer 1 (no_params\<lparr> params.lensingStrength := Some (Num 7) \<rparr>)
                           (fresh (resolve_options no_options) 0))) = Num 2"
  using addPlayer_merges_truthy_overrides
          [of 1 "no_params\<lparr> params.lensingStrength := Some (Num 7) \<rparr>"
              "fresh (resolve_options no_options) 0"
              "fst (addPlayer 1 (no_params\<lparr> params.lensingStrength := Some (Num 7) \<rparr>)
                      (fresh (resolve_options no_options) 0))"
              "snd (addPlayer 1 (no_params\<lparr> params.lensingStrength := Some (Num 7) \<rparr>)
                      (fresh (resolve_options no_options) 0))"]
  by (simp add: no_params_def)

text \<open>
  An override that is present but zero is not stored: the default replaces it. And an
  override of \<open>prismDispersion\<close> is dropped.
\<close>

theorem addPlayer_zero_override_counterexample:
  "params.gravityStrength (no_params\<lparr> params.gravityStrength := Some (Num 0),
                                      params.prismDispersion := Some (Num 5) \<rparr>) = Some (Num 0)
   \<and> gravityStrength (fst (addPlayer 1 (no_params\<lparr> params.gravityStrength := Some (Num 0),
                                                    params.prismDispersion := Some (Num 5) \<rparr>)
                              (fresh (resolve_options no_options) 0))) = Num (3 / 2)
   \<and> prismDispersion (fst (addPlayer 1 (no_params\<lparr> params.gravityStrength := Some (Num 0),
                                                    params.prismDispersion := Some (Num 5) \<rparr>)
                              (fresh (resolve_options no_options) 0))) = None"
  by (simp add: addPlayer_fst no_params_def fresh_def resolve_options_def no_options_def)

text \<open>
  C6. For an id that the registry does not hold, \<open>updatePlayerPosition\<close>,
  \<open>updatePlayerParams\<close> and \<open>removePlayer\<close> each return \<open>false\<close> and leave the whole
  simulation state, the registry included, as it was. None of them has a failing path.
\<close>

theorem unknown_id_is_noop:
  assumes "map_of (players s) playerId = None"
  shows "updatePlayerPosition playerId pos s = (False, s)
       \<and> updatePlayerParams playerId q s = (False, s)
       \<and> removePlayer playerId s = (False, s)"
  using assms by (simp add: updatePlayerPosition_def updatePlayerParams_def removePlayer_def)

theorem unknown_id_is_noop_witness:
  "map_of (players (snd (addPlayer 1 no_params (fresh (resolve_options no_options) 0)))) 2 = None
   \<and> updatePlayerPosition 2 \<lparr> vec_x = Num 3, vec_y = Num 4 \<rparr>
        (snd (addPlayer 1 no_params (fresh (resolve_options no_options) 0)))
       = (False, snd (addPlayer 1 no_params (fresh (resolve_options no_options) 0)))
   \<and> updatePlayerParams 2 (no_params\<lparr> params.prismStrength := Some (Num 9) \<rparr>)
        (snd (addPlayer 1 no_params (fresh (resolve_options no_options) 0)))
       = (False, snd (addPlayer 1 no_params (fresh (resolve_options no_options) 0)))
   \<and> removePlayer 2 (snd (addPlayer 1 no_params (fresh (resolve_options no_options) 0)))
       = (False, snd (addPlayer 1 no_params (fresh (resolve_options no_options) 0)))"
proof -
  have h: "map_of (players (snd (addPlayer 1 no_params
             (fresh (resolve_options no_options) 0)))) 2 = None"
    by (simp add: addPlayer_snd fresh_def)
  show ?thesis
    using h unknown_id_is_noop [OF h] by simp
qed

section \<open>Properties of the time scale\<close>

text \<open>
  C2. For every \<open>deltaTime\<close> that is at least zero (positive infinity included), the time
  scale lies in the closed interval from 0 to 2. The source caps the scale from above only.
\<close>

theorem timeScale_in_range:
  assumes "Num 0 \<le> deltaTime"
  shows "Num 0 \<le> timeScale deltaTime \<and> timeScale deltaTime \<le> Num 2"
  using assms by (cases deltaTime) (auto simp: timeScale_def)

theorem timeScale_in_range_witness:
  "Num 0 \<le> Num 33 \<and> Num 0 \<le> timeScale (Num 33) \<and> timeScale (Num 33) \<le> Num 2"
proof -
  have h: "Num 0 \<le> Num 33" by simp
  show ?thesis using h timeScale_in_range [OF h] by simp
qed

text \<open>A negative \<open>deltaTime\<close> gives a negative time scale.\<close>

theorem timeScale_negative_counterexample:
  "\<not> (Num 0 \<le> timeScale (Num (- 1)) \<and> timeScale (Num (- 1)) \<le> Num 2)"
  by (simp add: timeScale_def)

section \<open>Properties of the particle pool\<close>

lemma initParticle_lengths:
  "length (particles (initParticle rand s)) = Suc (length (particles s))"
  "length (velocities (initParticle rand s)) = Suc (length (velocities s))"
  "length (colors (initParticle rand s)) = Suc (length (colors s))"
  by (simp_all add: initParticle_def Let_def split: prod.split)

lemma initLoop_step:
  "real i < c \<Longrightarrow>
   initLoop rand (Num c) i s = initLoop rand (Num c) (Suc i) (initParticle rand s)"
  by (subst initLoop.simps) simp

lemma initLoop_stop: "\<not> real i < c \<Longrightarrow> initLoop rand (Num c) i s = s"
  by (subst initLoop.simps) simp

lemma Suc_add_diff_Suc: "i < (n::nat) \<Longrightarrow> Suc (l + n - Suc i) = l + n - i"
  by arith

lemma initLoop_lengths:
  "length (particles (initLoop rand (Num c) i s)) = length (particles s) + (nat \<lceil>c\<rceil> - i)
   \<and> length (velocities (initLoop rand (Num c) i s))
       = length (velocities s) + (nat \<lceil>c\<rceil> - i)
   \<and> length (colors (initLoop rand (Num c) i s)) = length (colors s) + (nat \<lceil>c\<rceil> - i)"
proof (induction rand "Num c" i s rule: initLoop.induct)
  case (1 rand i s)
  show ?case
  proof (cases "real i < c")
    case True
    then have "i < nat \<lceil>c\<rceil>" by linarith
    with 1 True show ?thesis
      by (simp add: initLoop_step initParticle_lengths Suc_add_diff_Suc)
  next
    case False
    then have "nat \<lceil>c\<rceil> \<le> i" by linarith
    with False show ?thesis
      by (simp add: initLoop_stop)
  qed
qed

lemma initParticles_Num:
  assumes "options.particleCount (options s) = Num c"
  shows "initParticles rand s
         = Some (initLoop rand (Num c) 0 (s\<lparr> particles := [], velocities := [], colors := [] \<rparr>))"
  using assms by (simp add: initParticles_def)

lemma initParticles_lengths:
  assumes "options.particleCount (options s) = Num c"
  shows "\<exists>s'. initParticles rand s = Some s'
            \<and> length (particles s') = nat \<lceil>c\<rceil>
            \<and> length (velocities s') = nat \<lceil>c\<rceil>
            \<and> length (colors s') = nat \<lceil>c\<rceil>"
  using initLoop_lengths [of rand c 0 "s\<lparr> particles := [], velocities := [], colors := [] \<rparr>"]
  by (simp add: initParticles_Num [OF assms])

lemma send_fields:
  "physicsSimulation (send ws f srv) = physicsSimulation srv"
  "clients (send ws f srv) = clients srv"
  "nextPlayerId (send ws f srv) = nextPlayerId srv"
  "lastFullUpdateTime (send ws f srv) = lastFullUpdateTime srv"
  by (simp_all add: send_def)

lemma fold_send_fields:
  "physicsSimulation (fold (\<lambda>ws. send ws f) wss srv) = physicsSimulation srv"
  "clients (fold (\<lambda>ws. send ws f) wss srv) = clients srv"
  "nextPlayerId (fold (\<lambda>ws. send ws f) wss srv) = nextPlayerId srv"
  "lastFullUpdateTime (fold (\<lambda>ws. send ws f) wss srv) = lastFullUpdateTime srv"
  by (induction wss arbitrary: srv) (simp_all add: send_fields)

lemma broadcast_fields:
  "physicsSimulation (broadcast f srv) = physicsSimulation srv"
  "clients (broadcast f srv) = clients srv"
  "nextPlayerId (broadcast f srv) = nextPlayerId srv"
  "lastFullUpdateTime (broadcast f srv) = lastFullUpdateTime srv"
  by (simp_all add: broadcast_def fold_send_fields)

lemma startSimulation_fields:
  "particles (startSimulation s) = particles s"
  "velocities (startSimulation s) = velocities s"
  "colors (startSimulation s) = colors s"
  "options (startSimulation s) = options s"
  "players (startSimulation s) = players s"
  by (simp_all add: startSimulation_def)

lemma stopSimulation_fields:
  "particles (stopSimulation s) = particles s"
  "velocities (stopSimulation s) = velocities s"
  "colors (stopSimulation s) = colors s"
  "options (stopSimulation s) = options s"
  "players (stopSimulation s) = players s"
  by (simp_all add: stopSimulation_def)

lemma clients_on_open:
  "clients (on_open ws srv) = obj_set (clients srv) (nextPlayerId srv) ws"
  by (simp add: on_open_def Let_def broadcastPlayerList_def broadcast_fields send_fields
        split: prod.split)

lemma setParticleCount_pool:
  assumes "find_id (clients srv) ws = Some playerId"
    and "msg_type data = ''setParticleCount''"
    and "msg_count data = Some (Num n)" and "n \<noteq> 0"
  shows "\<exists>srv'. on_message rand ws (Some data) srv = Some srv'
           \<and> length (particles (physicsSimulation srv')) = nat \<lceil>min 10000 (max 500 n)\<rceil>
           \<and> length (velocities (physicsSimulation srv')) = nat \<lceil>min 10000 (max 500 n)\<rceil>"
proof -
  define s1 where "s1 = stopSimulation ((physicsSimulation srv)
     \<lparr> options := (options (physicsSimulation srv))
         \<lparr> options.particleCount := Math_min (Num 10000) (Math_max (Num 500) (Num n)) \<rparr> \<rparr>)"
  have "options.particleCount (options s1) = Num (min 10000 (max 500 n))"
    by (simp add: s1_def stopSimulation_fields)
  from initParticles_lengths [OF this, of rand]
  obtain s' where s': "initParticles rand s1 = Some s'"
    "length (particles s') = nat \<lceil>min 10000 (max 500 n)\<rceil>"
    "length (velocities s') = nat \<lceil>min 10000 (max 500 n)\<rceil>"
    by blast
  have "on_message rand ws (Some data) srv
        = Some (broadcastSystemMessage
                  (options.particleCount
                     (options (startSimulation (s'\<lparr> simulationTime := Num 0 \<rparr>))))
                  (srv\<lparr> physicsSimulation :=
                         startSimulation (s'\<lparr> simulationTime := Num 0 \<rparr>) \<rparr>))"
    using assms s'(1) unfolding s1_def
    by (simp add: on_message_def resetSimulation_def Let_def
          del: Math_min.simps Math_max.simps)
  then show ?thesis
    using s'(2,3)
    by (simp add: broadcastSystemMessage_def broadcast_fields startSimulation_fields)
qed

text \<open>
  C3. \<open>initParticles\<close> does not clamp: for a configuration whose \<open>particleCount\<close> is the
  number \<open>c\<close>, it returns, and the particle pool and the velocity array have as many
  elements as the loop \<open>for (i = 0; i < c; i++)\<close> has rounds, which is \<open>c\<close> itself when
  \<open>c\<close> is a natural number. The clamp to 500..10000 is in the handler of
  \<open>setParticleCount\<close>: for a count \<open>n\<close> other than zero from a connected sender, the
  pool and the velocity array afterwards have \<open>clamp(n, 500, 10000)\<close> elements.
\<close>

theorem pool_size_is_particleCount:
  "(options.particleCount (options s) = Num c \<longrightarrow>
      (\<exists>s'. initParticles rand s = Some s'
          \<and> length (particles s') = nat \<lceil>c\<rceil>
          \<and> length (velocities s') = nat \<lceil>c\<rceil>))
   \<and> (find_id (clients srv) ws = Some playerId
        \<and> msg_type data = ''setParticleCount''
        \<and> msg_count data = Some (Num n) \<and> n \<noteq> 0 \<longrightarrow>
      (\<exists>srv'. on_message rand ws (Some data) srv = Some srv'
          \<and> length (particles (physicsSimulation srv')) = nat \<lceil>min 10000 (max 500 n)\<rceil>
          \<and> length (velocities (physicsSimulation srv')) = nat \<lceil>min 10000 (max 500 n)\<rceil>))"
proof (intro conjI impI)
  assume "options.particleCount (options s) = Num c"
  from initParticles_lengths [OF this, of rand]
  show "\<exists>s'. initParticles rand s = Some s'
          \<and> length (particles s') = nat \<lceil>c\<rceil>
          \<and> length (velocities s') = nat \<lceil>c\<rceil>"
    by blast
next
  assume "find_id (clients srv) ws = Some playerId
        \<and> msg_type data = ''setParticleCount''
        \<and> msg_count data = Some (Num n) \<and> n \<noteq> 0"
  then show "\<exists>srv'. on_message rand ws (Some data) srv = Some srv'
          \<and> length (particles (physicsSimulation srv')) = nat \<lceil>min 10000 (max 500 n)\<rceil>
          \<and> length (velocities (physicsSimulation srv')) = nat \<lceil>min 10000 (max 500 n)\<rceil>"
    using setParticleCount_pool by blast
qed

theorem pool_size_is_particleCount_witness:
  "options.particleCount
      (options (fresh (resolve_options
                         (no_options\<lparr> raw_options.particleCount := Some (Num 3) \<rparr>)) 0)) = Num 3
   \<and> (\<exists>s'. initParticles zero_rand
               (fresh (resolve_options
                         (no_options\<lparr> raw_options.particleCount := Some (Num 3) \<rparr>)) 0) = Some s'
          \<and> length (particles s') = 3 \<and> length (velocities s') = 3)
   \<and> find_id (clients (on_open 7 (server_start (fresh (resolve_options no_options) 0) 0))) 7
       = Some 1
   \<and> (\<exists>srv'. on_message zero_rand 7
                 (Some \<lparr> msg_type = ''setParticleCount'',
                         msg_position = \<lparr> vec_x = Num 0, vec_y = Num 0 \<rparr>,
                         msg_params = no_params,
                         msg_count = Some (Num 999999) \<rparr>)
                 (on_open 7 (server_start (fresh (resolve_options no_options) 0) 0)) = Some srv'
          \<and> length (particles (physicsSimulation srv')) = 10000
          \<and> length (velocities (physicsSimulation srv')) = 10000)"
proof -
  have h1: "options.particleCount
      (options (fresh (resolve_options
                         (no_options\<lparr> raw_options.particleCount := Some (Num 3) \<rparr>)) 0)) = Num 3"
    by (simp add: fresh_def resolve_options_def no_options_def)
  have h2: "find_id (clients (on_open 7 (server_start (fresh (resolve_options no_options) 0) 0))) 7
       = Some 1"
    by (simp add: clients_on_open server_start_def)
  show ?thesis
    using h1 h2
      pool_size_is_particleCount
        [of "fresh (resolve_options (no_options\<lparr> raw_options.particleCount := Some (Num 3) \<rparr>)) 0"
            3 zero_rand
            "on_open 7 (server_start (fresh (resolve_options no_options) 0) 0)" 7 1
            "\<lparr> msg_type = ''setParticleCount'',
               msg_position = \<lparr> vec_x = Num 0, vec_y = Num 0 \<rparr>,
               msg_params = no_params,
               msg_count = Some (Num 999999) \<rparr>"
            999999]
    by simp
qed

text \<open>
  A simulation constructed with a particle count of 100 has 100 particles, not the 500
  that the clamp would give.
\<close>

theorem init_does_not_clamp_counterexample:
  "(\<exists>s'. new_sim zero_rand (no_options\<lparr> raw_options.particleCount := Some (Num 100) \<rparr>) 0
            = Some s'
        \<and> length (particles s') = 100)
   \<and> Math_min (Num 10000) (Math_max (Num 500) (Num 100)) = Num 500"
proof -
  have "options.particleCount
      (options (fresh (resolve_options
                         (no_options\<lparr> raw_options.particleCount := Some (Num 100) \<rparr>)) 0))
        = Num 100"
    by (simp add: fresh_def resolve_options_def no_options_def)
  from initParticles_lengths [OF this, of zero_rand]
  show ?thesis
    by (auto simp: new_sim_def)
qed

section \<open>Properties of the message handler\<close>

text \<open>
  C9. A \<open>setParticleCount\<close> message whose count is falsy (absent, zero or NaN) changes
  nothing: the configuration, the particle pool, the count of random draws and every
  outbox stay as they were, so there is no clamp, no reinitialisation and no system
  message.
\<close>

theorem setParticleCount_falsy_is_ignored:
  assumes "msg_type data = ''setParticleCount''"
    and "msg_count data = None \<or> msg_count data = Some (Num 0) \<or> msg_count data = Some NaN"
  shows "on_message rand ws (Some data) srv = Some srv"
  using assms by (auto simp: on_message_def split: option.splits)

theorem setParticleCount_falsy_is_ignored_witness:
  "on_message zero_rand 7
     (Some \<lparr> msg_type = ''setParticleCount'',
             msg_position = \<lparr> vec_x = Num 0, vec_y = Num 0 \<rparr>,
             msg_params = no_params,
             msg_count = Some (Num 0) \<rparr>)
     (on_open 7 (server_start (fresh (resolve_options no_options) 0) 0))
   = Some (on_open 7 (server_start (fresh (resolve_options no_options) 0) 0))"
  using setParticleCount_falsy_is_ignored
          [of "\<lparr> msg_type = ''setParticleCount'',
                  msg_position = \<lparr> vec_x = Num 0, vec_y = Num 0 \<rparr>,
                  msg_params = no_params,
                  msg_count = Some (Num 0) \<rparr>"
              zero_rand 7 "on_open 7 (server_start (fresh (resolve_options no_options) 0) 0)"]
  by simp

section \<open>Properties of the broadcasts\<close>

lemma outbox_send:
  "outbox (send w f srv) ws = (if ws = w then outbox srv ws @ [f] else outbox srv ws)"
  by (simp add: send_def)

lemma outbox_fold_send:
  "outbox (fold (\<lambda>w. send w f) wss srv) ws = outbox srv ws @ replicate (count_list wss ws) f"
  by (induction wss arbitrary: srv) (auto simp: outbox_send replicate_append_same)

lemma outbox_broadcast:
  "outbox (broadcast f srv) ws
     = outbox srv ws @ replicate (count_list (map snd (clients srv)) ws) f"
  by (simp add: broadcast_def outbox_fold_send)

text \<open>
  C7. On a firing of the broadcast timer of the measuring server, when at least 200 ms
  have passed since the last full broadcast, the last-full timestamp becomes \<open>now\<close> and
  every channel receives, once per entry it has in the registry of channels, one
  \<open>fullState\<close> frame with all particle positions, the player map, the simulation time and
  the metrics; otherwise the timestamp stays and every channel receives one
  \<open>particleUpdate\<close> frame with the positions, the simulation time and the metrics, and no
  player data. The plain server does the same with an interval of 100 ms, and its frames
  carry no metrics.
\<close>

theorem broadcast_timer_frames:
  "(200 \<le> now - lastFullUpdateTime srv \<longrightarrow>
      lastFullUpdateTime (broadcast_timer now srv) = now
      \<and> (\<forall>ws. outbox (broadcast_timer now srv) ws
              = outbox srv ws
                @ replicate (count_list (map snd (clients srv)) ws)
                    (FullState (particles (physicsSimulation srv))
                       (players (physicsSimulation srv))
                       (simulationTime (physicsSimulation srv))
                       (Some (perfMetrics srv)))))
   \<and> (now - lastFullUpdateTime srv < 200 \<longrightarrow>
      lastFullUpdateTime (broadcast_timer now srv) = lastFullUpdateTime srv
      \<and> (\<forall>ws. outbox (broadcast_timer now srv) ws
              = outbox srv ws
                @ replicate (count_list (map snd (clients srv)) ws)
                    (ParticleUpdate (particles (physicsSimulation srv))
                       (simulationTime (physicsSimulation srv))
                       (Some (perfMetrics srv)))))
   \<and> (100 \<le> now - lastFullUpdateTime srv \<longrightarrow>
      lastFullUpdateTime (broadcast_timer_plain now srv) = now
      \<and> (\<forall>ws. outbox (broadcast_timer_plain now srv) ws
              = outbox srv ws
                @ replicate (count_list (map snd (clients srv)) ws)
                    (FullState (particles (physicsSimulation srv))
                       (players (physicsSimulation srv))
                       (simulationTime (physicsSimulation srv))
                       None)))
   \<and> (now - lastFullUpdateTime srv < 100 \<longrightarrow>
      lastFullUpdateTime (broadcast_timer_plain now srv) = lastFullUpdateTime srv
      \<and> (\<forall>ws. outbox (broadcast_timer_plain now srv) ws
              = outbox srv ws
                @ replicate (count_list (map snd (clients srv)) ws)
                    (ParticleUpdate (particles (physicsSimulation srv))
                       (simulationTime (physicsSimulation srv))
                       None)))"
  by (simp add: broadcast_timer_def broadcast_timer_plain_def getState_def Let_def
        broadcast_fields outbox_broadcast)

text \<open>
  A channel is connected to a server that started at time 0. At time 250 the measuring
  server sends it a full state with metrics, and at time 150 a particle update; the plain
  server sends it a full state at time 150 and a particle update at time 50.
\<close>

theorem broadcast_timer_frames_witness:
  "(200 \<le> 250 - lastFullUpdateTime (on_open 7 (server_start (fresh (resolve_options no_options) 0) 0))
    \<and> last (outbox (broadcast_timer 250
                       (on_open 7 (server_start (fresh (resolve_options no_options) 0) 0))) 7)
        = FullState []
            (players (physicsSimulation
                        (on_open 7 (server_start (fresh (resolve_options no_options) 0) 0))))
            (Num 0)
            (Some (perfMetrics (on_open 7 (server_start (fresh (resolve_options no_options) 0) 0)))))
   \<and> (150 - lastFullUpdateTime (on_open 7 (server_start (fresh (resolve_options no_options) 0) 0)) < 200
    \<and> last (outbox (broadcast_timer 150
                       (on_open 7 (server_start (fresh (resolve_options no_options) 0) 0))) 7)
        = ParticleUpdate [] (Num 0)
            (Some (perfMetrics (on_open 7 (server_start (fresh (resolve_options no_options) 0) 0)))))
   \<and> (100 \<le> 150 - lastFullUpdateTime (on_open 7 (server_start (fresh (resolve_options no_options) 0) 0))
    \<and> last (outbox (broadcast_timer_plain 150
                       (on_open 7 (server_start (fresh (resolve_options no_options) 0) 0))) 7)
        = FullState []
            (players (physicsSimulation
                        (on_open 7 (server_start (fresh (resolve_options no_options) 0) 0))))
            (Num 0) None)
   \<and> (50 - lastFullUpdateTime (on_open 7 (server_start (fresh (resolve_options no_options) 0) 0)) < 100
    \<and> last (outbox (broadcast_timer_plain 50
                       (on_open 7 (server_start (fresh (resolve_options no_options) 0) 0))) 7)
        = ParticleUpdate [] (Num 0) None)"
proof -
  define srv where "srv = on_open 7 (server_start (fresh (resolve_options no_options) 0) 0)"
  have t: "lastFullUpdateTime srv = 0"
    by (simp add: srv_def on_open_def Let_def getState_def broadcastPlayerList_def
          broadcast_fields send_fields server_start_def)
  have c: "clients srv = [(1, 7)]"
    by (simp add: srv_def clients_on_open server_start_def)
  have p: "particles (physicsSimulation srv) = []"
       "simulationTime (physicsSimulation srv) = Num 0"
    by (simp_all add: srv_def on_open_def Let_def getState_def broadcastPlayerList_def
          broadcast_fields send_fields server_start_def addPlayer_snd startSimulation_def
          fresh_def)
  show ?thesis
    unfolding srv_def [symmetric]
    using t c p broadcast_timer_frames [of 250 srv] broadcast_timer_frames [of 150 srv]
      broadcast_timer_frames [of 50 srv]
    by simp
qed

text \<open>The full state that the plain server broadcasts carries no metrics.\<close>

theorem plain_broadcast_has_no_metrics_counterexample:
  "last (outbox (broadcast_timer_plain 150
                   (on_open 7 (server_start (fresh (resolve_options no_options) 0) 0))) 7)
     = FullState []
         (players (physicsSimulation
                     (on_open 7 (server_start (fresh (resolve_options no_options) 0) 0))))
         (Num 0) None"
proof -
  define srv where "srv = on_open 7 (server_start (fresh (resolve_options no_options) 0) 0)"
  have t: "lastFullUpdateTime srv = 0"
    by (simp add: srv_def on_open_def Let_def getState_def broadcastPlayerList_def
          broadcast_fields send_fields server_start_def)
  have c: "clients srv = [(1, 7)]"
    by (simp add: srv_def clients_on_open server_start_def)
  have p: "particles (physicsSimulation srv) = []"
       "simulationTime (physicsSimulation srv) = Num 0"
    by (simp_all add: srv_def on_open_def Let_def getState_def broadcastPlayerList_def
          broadcast_fields send_fields server_start_def addPlayer_snd startSimulation_def
          fresh_def)
  show ?thesis
    unfolding srv_def [symmetric]
    using t c p
    by (simp add: broadcast_timer_plain_def Let_def getState_def outbox_broadcast
          broadcast_fields)
qed

section \<open>Properties of a connection\<close>

lemma outbox_on_open:
  "\<exists>rest. outbox (on_open ws srv) ws
     = outbox srv ws
       @ [IdFrame (nextPlayerId srv),
          FullState (particles (physicsSimulation srv))
            (players (snd (addPlayer (nextPlayerId srv) no_params (physicsSimulation srv))))
            (simulationTime (physicsSimulation srv)) None]
       @ rest"
  by (simp add: on_open_def Let_def getState_def broadcastPlayerList_def outbox_broadcast
        outbox_send send_fields addPlayer_def)

lemma outbox_grows_on_open: "\<exists>rest. outbox (on_open w srv) ws = outbox srv ws @ rest"
  by (simp add: on_open_def Let_def getState_def broadcastPlayerList_def
        outbox_broadcast outbox_send send_fields)

lemma outbox_grows_on_close: "\<exists>rest. outbox (on_close w srv) ws = outbox srv ws @ rest"
  by (simp add: on_close_def broadcastPlayerList_def outbox_broadcast split: option.split)

lemma outbox_grows_on_message:
  assumes "on_message rand w raw srv = Some srv'"
  shows "\<exists>rest. outbox srv' ws = outbox srv ws @ rest"
  using assms
  by (auto simp: on_message_def broadcastPlayerUpdate_def
        broadcastSystemMessage_def outbox_broadcast Let_def
        split: option.splits if_splits)

lemma outbox_grows_physics_timer:
  assumes "physics_timer rand deltaTime elapsed srv = Some srv'"
  shows "\<exists>rest. outbox srv' ws = outbox srv ws @ rest"
  using assms
  by (auto simp: physics_timer_def split: option.splits if_splits)

lemma outbox_grows_broadcast_timer:
  "\<exists>rest. outbox (broadcast_timer now srv) ws = outbox srv ws @ rest"
  "\<exists>rest. outbox (broadcast_timer_plain now srv) ws = outbox srv ws @ rest"
  by (simp_all add: broadcast_timer_def broadcast_timer_plain_def Let_def
        getState_def outbox_broadcast)

lemma outbox_grows_handle:
  assumes "handle measuring rand ev srv = Some srv'"
  shows "\<exists>rest. outbox srv' ws = outbox srv ws @ rest"
proof (cases ev)
  case (Open w)
  with assms show ?thesis by (auto simp: outbox_grows_on_open)
next
  case (Message w raw)
  with assms show ?thesis by (auto simp: outbox_grows_on_message)
next
  case (Close w)
  with assms show ?thesis by (auto simp: outbox_grows_on_close)
next
  case (PhysicsTimer deltaTime elapsed)
  with assms show ?thesis
    by (auto simp: outbox_grows_physics_timer split: if_splits option.splits)
next
  case (BroadcastTimer now)
  with assms show ?thesis by (auto simp: outbox_grows_broadcast_timer)
qed

lemma outbox_grows_forEach:
  assumes "forEach (handle measuring rand) evs srv = Some srv'"
  shows "\<exists>rest. outbox srv' ws = outbox srv ws @ rest"
  using assms
proof (induction evs arbitrary: srv)
  case Nil
  then show ?case by simp
next
  case (Cons ev evs)
  then obtain srv1 where 1: "handle measuring rand ev srv = Some srv1"
    and 2: "forEach (handle measuring rand) evs srv1 = Some srv'"
    by (auto split: option.splits)
  from outbox_grows_handle [OF 1] obtain r1 where "outbox srv1 ws = outbox srv ws @ r1"
    by blast
  moreover from Cons.IH [OF 2] obtain r2 where "outbox srv' ws = outbox srv1 ws @ r2"
    by blast
  ultimately show ?case by simp
qed

text \<open>
  C8. Nothing has been sent to a channel before it connects. Then, in either server
  variant and whatever events follow the connection, the frames sent to the channel begin
  with the \<open>id\<close> frame of its new player id, followed by a \<open>fullState\<close> frame of the
  simulation as it is at the connection, the new player included; every other frame, the
  particle updates among them, comes after these two.
\<close>

theorem connect_begins_with_id_then_fullState:
  assumes "outbox srv ws = []"
    and "run measuring rand (Open ws # evs) srv = Some srv'"
  shows "\<exists>rest.
           outbox srv' ws
             = IdFrame (nextPlayerId srv)
               # FullState (particles (physicsSimulation srv))
                   (players (snd (addPlayer (nextPlayerId srv) no_params
                                    (physicsSimulation srv))))
                   (simulationTime (physicsSimulation srv)) None
               # rest"
proof -
  from assms(2) have "forEach (handle measuring rand) evs (on_open ws srv) = Some srv'"
    by (simp add: run_def)
  from outbox_grows_forEach [OF this]
  obtain rest where "outbox srv' ws = outbox (on_open ws srv) ws @ rest"
    by blast
  moreover from outbox_on_open [of ws srv] obtain rest0 where
    "outbox (on_open ws srv) ws
       = outbox srv ws
         @ [IdFrame (nextPlayerId srv),
            FullState (particles (physicsSimulation srv))
              (players (snd (addPlayer (nextPlayerId srv) no_params (physicsSimulation srv))))
              (simulationTime (physicsSimulation srv)) None]
         @ rest0"
    by blast
  ultimately show ?thesis
    using assms(1) by simp
qed

theorem connect_begins_with_id_then_fullState_witness:
  "outbox (server_start (fresh (resolve_options no_options) 0) 0) 7 = []
   \<and> run True zero_rand [Open 7, BroadcastTimer 50]
        (server_start (fresh (resolve_options no_options) 0) 0)
       = Some (broadcast_timer 50
                 (on_open 7 (server_start (fresh (resolve_options no_options) 0) 0)))
   \<and> (\<exists>rest. outbox (broadcast_timer 50
                        (on_open 7 (server_start (fresh (resolve_options no_options) 0) 0))) 7
         = IdFrame 1
           # FullState []
               (players (snd (addPlayer 1 no_params
                                (startSimulation (fresh (resolve_options no_options) 0)))))
               (Num 0) None
           # rest)"
proof -
  have h1: "outbox (server_start (fresh (resolve_options no_options) 0) 0) 7 = []"
    by (simp add: server_start_def)
  have h2: "run True zero_rand [Open 7, BroadcastTimer 50]
        (server_start (fresh (resolve_options no_options) 0) 0)
       = Some (broadcast_timer 50
                 (on_open 7 (server_start (fresh (resolve_options no_options) 0) 0)))"
    by (simp add: run_def)
  show ?thesis
    using h1 h2 connect_begins_with_id_then_fullState [OF h1 h2]
    by (simp add: server_start_def startSimulation_def fresh_def)
qed

section \<open>Removal of a player\<close>

lemma keys_obj_set: "set (map fst (obj_set r k v)) = insert k (set (map fst r))"
  by (induction r) (force split: if_splits)+

lemma keys_obj_delete: "set (map fst (obj_delete r k)) \<subseteq> set (map fst r)"
  by (induction r) (force split: if_splits)+

lemma ascending_obj_set:
  "sorted_wrt (<) (map fst r) \<Longrightarrow> sorted_wrt (<) (map fst (obj_set r k v))"
proof (induction r)
  case Nil
  then show ?case by simp
next
  case (Cons a r)
  obtain k' v' where a: "a = (k', v')" by (cases a)
  have "\<forall>x \<in> set (map fst (obj_set r k v)). k' < x" if "k' < k"
    using that Cons.prems unfolding keys_obj_set by (auto simp: a)
  with Cons show ?case
    by (auto simp: a)
qed

lemma ascending_obj_delete:
  "sorted_wrt (<) (map fst r) \<Longrightarrow> sorted_wrt (<) (map fst (obj_delete r k))"
proof (induction r)
  case Nil
  then show ?case by simp
next
  case (Cons a r)
  obtain k' v' where a: "a = (k', v')" by (cases a)
  have "\<forall>x \<in> set (map fst (obj_delete r k)). k' < x"
  proof
    fix x assume "x \<in> set (map fst (obj_delete r k))"
    with keys_obj_delete [of r k] have "x \<in> set (map fst r)" by blast
    with Cons.prems show "k' < x" by (auto simp: a)
  qed
  with Cons show ?case
    by (auto simp: a)
qed

lemma obj_delete_absent: "k \<notin> set (map fst r) \<Longrightarrow> obj_delete r k = r"
  by (induction r) auto

lemma absent_after_obj_delete:
  "sorted_wrt (<) (map fst r) \<Longrightarrow> p \<notin> set (map fst (obj_delete r p))"
proof (induction r)
  case Nil
  then show ?case by simp
next
  case (Cons a r)
  obtain k' v' where a: "a = (k', v')" by (cases a)
  with Cons show ?case by (auto simp: a)
qed

lemma obj_delete_obj_set_same:
  "sorted_wrt (<) (map fst r) \<Longrightarrow> obj_delete (obj_set r p v) p = obj_delete r p"
proof (induction r)
  case Nil
  then show ?case by simp
next
  case (Cons a r)
  obtain k' v' where a: "a = (k', v')" by (cases a)
  show ?case
  proof (cases "p < k'")
    case True
    with Cons.prems have "p \<notin> set (map fst r)" by (auto simp: a)
    with True show ?thesis by (simp add: a obj_delete_absent)
  next
    case False
    with Cons show ?thesis by (auto simp: a)
  qed
qed

lemma obj_delete_obj_set_other:
  "sorted_wrt (<) (map fst r) \<Longrightarrow> k \<noteq> p \<Longrightarrow>
   obj_delete (obj_set r k v) p = obj_set (obj_delete r p) k v"
proof (induction r)
  case Nil
  then show ?case by simp
next
  case (Cons a r)
  obtain k' v' where a: "a = (k', v')" by (cases a)
  show ?case
  proof (cases "k' = p")
    case True
    show ?thesis
    proof (cases "k < p")
      case True
      with Cons.prems \<open>k' = p\<close> have "obj_set r k v = (k, v) # r"
        by (cases r) (auto simp: a)
      with True \<open>k' = p\<close> Cons.prems show ?thesis by (simp add: a)
    next
      case False
      with Cons.prems \<open>k' = p\<close> show ?thesis by (simp add: a)
    qed
  next
    case False
    with Cons show ?thesis by (auto simp: a)
  qed
qed

lemma obj_delete_twice:
  "sorted_wrt (<) (map fst r) \<Longrightarrow> obj_delete (obj_delete r p) p = obj_delete r p"
  by (rule obj_delete_absent) (rule absent_after_obj_delete)

lemma obj_delete_commute:
  "sorted_wrt (<) (map fst r) \<Longrightarrow>
   obj_delete (obj_delete r k) p = obj_delete (obj_delete r p) k"
proof (induction r)
  case Nil
  then show ?case by simp
next
  case (Cons a r)
  obtain k' v' where a: "a = (k', v')" by (cases a)
  from Cons.prems have nk: "k' \<notin> set (map fst r)" by (auto simp: a)
  with Cons show ?case
    by (auto simp: a obj_delete_absent)
qed

lemma map_of_obj_delete_other:
  "k \<noteq> p \<Longrightarrow> map_of (obj_delete r p) k = map_of r k"
  by (induction r) auto

lemma map_of_absent: "map_of r k = None \<Longrightarrow> k \<notin> set (map fst r)"
  by (induction r) (auto split: if_splits)

lemma apply_op_others:
  "apply_op ro s = s\<lparr> players := players (apply_op ro s) \<rparr>"
  by (cases ro)
     (simp_all add: addPlayer_def removePlayer_def updatePlayerPosition_def
        updatePlayerParams_def Let_def split: option.split)

lemma ascending_apply_op:
  assumes "sorted_wrt (<) (map fst (players s))"
  shows "sorted_wrt (<) (map fst (players (apply_op ro s)))"
  using assms
  by (cases ro)
     (simp_all add: addPlayer_def removePlayer_def updatePlayerPosition_def
        updatePlayerParams_def Let_def ascending_obj_set ascending_obj_delete
        split: option.split)

lemma removePlayer_snd:
  "snd (removePlayer p s) = s\<lparr> players := obj_delete (players s) p \<rparr>"
  by (auto simp: removePlayer_def obj_delete_absent dest: map_of_absent split: option.split)

text \<open>An operation on another player commutes with the removal of \<open>p\<close>.\<close>

lemma apply_op_other_player:
  assumes "sorted_wrt (<) (map fst (players s))" and "op_player ro \<noteq> p"
  shows "apply_op ro (s\<lparr> players := obj_delete (players s) p \<rparr>)
         = (apply_op ro s)\<lparr> players := obj_delete (players (apply_op ro s)) p \<rparr>"
proof (cases ro)
  case (AddPlayer k q)
  with assms show ?thesis
    by (simp add: addPlayer_def Let_def obj_delete_obj_set_other)
next
  case (RemovePlayer k)
  with assms show ?thesis
    by (simp add: removePlayer_snd obj_delete_commute)
next
  case (UpdatePlayerPosition k pos)
  with assms show ?thesis
    by (simp add: updatePlayerPosition_def map_of_obj_delete_other obj_delete_obj_set_other
          split: option.split)
next
  case (UpdatePlayerParams k q)
  with assms show ?thesis
    by (simp add: updatePlayerParams_def map_of_obj_delete_other obj_delete_obj_set_other
          split: option.split)
qed

text \<open>An operation on \<open>p\<close> itself disappears under the removal of \<open>p\<close>.\<close>

lemma apply_op_same_player:
  assumes "sorted_wrt (<) (map fst (players s))" and "op_player ro = p"
  shows "(apply_op ro s)\<lparr> players := obj_delete (players (apply_op ro s)) p \<rparr>
         = s\<lparr> players := obj_delete (players s) p \<rparr>"
proof (cases ro)
  case (AddPlayer k q)
  with assms show ?thesis
    by (simp add: addPlayer_def Let_def obj_delete_obj_set_same)
next
  case (RemovePlayer k)
  with assms show ?thesis
    by (simp add: removePlayer_snd obj_delete_twice)
next
  case (UpdatePlayerPosition k pos)
  with assms show ?thesis
    by (simp add: updatePlayerPosition_def obj_delete_obj_set_same split: option.split)
next
  case (UpdatePlayerParams k q)
  with assms show ?thesis
    by (simp add: updatePlayerParams_def obj_delete_obj_set_same split: option.split)
qed

lemma history_without_player:
  assumes "sorted_wrt (<) (map fst (players s))"
  shows "fold apply_op (filter (\<lambda>ro. op_player ro \<noteq> p) ops)
           (s\<lparr> players := obj_delete (players s) p \<rparr>)
         = (fold apply_op ops s)\<lparr> players := obj_delete (players (fold apply_op ops s)) p \<rparr>"
  using assms
proof (induction ops arbitrary: s)
  case Nil
  then show ?case by simp
next
  case (Cons ro ops)
  have asc: "sorted_wrt (<) (map fst (players (apply_op ro s)))"
    using Cons.prems by (rule ascending_apply_op)
  show ?case
  proof (cases "op_player ro = p")
    case True
    have "fold apply_op (filter (\<lambda>ro. op_player ro \<noteq> p) (ro # ops))
            (s\<lparr> players := obj_delete (players s) p \<rparr>)
          = fold apply_op (filter (\<lambda>ro. op_player ro \<noteq> p) ops)
              ((apply_op ro s)\<lparr> players := obj_delete (players (apply_op ro s)) p \<rparr>)"
      using True by (simp add: apply_op_same_player [OF Cons.prems True])
    then show ?thesis
      using Cons.IH [OF asc] by simp
  next
    case False
    have "fold apply_op (filter (\<lambda>ro. op_player ro \<noteq> p) (ro # ops))
            (s\<lparr> players := obj_delete (players s) p \<rparr>)
          = fold apply_op (filter (\<lambda>ro. op_player ro \<noteq> p) ops)
              ((apply_op ro s)\<lparr> players := obj_delete (players (apply_op ro s)) p \<rparr>)"
      using False by (simp add: apply_op_other_player [OF Cons.prems False])
    then show ?thesis
      using Cons.IH [OF asc] by simp
  qed
qed

text \<open>
  C4. Take any simulation whose registry is empty, with any particle state, and any
  history of registry operations on it. Removing player \<open>p\<close> at the end of the history
  gives the very state that the same history gives with every operation on \<open>p\<close> left
  out. So a physics step after the removal gives exactly the result, positions and
  velocities included, of that step on the simulation that never had \<open>p\<close>, on the same
  stream of random draws.
\<close>

theorem removed_player_leaves_no_trace:
  assumes "players s = []"
  shows "snd (removePlayer p (fold apply_op ops s))
           = fold apply_op (filter (\<lambda>ro. op_player ro \<noteq> p) ops) s
       \<and> updatePhysics rand deltaTime (snd (removePlayer p (fold apply_op ops s)))
           = updatePhysics rand deltaTime
               (fold apply_op (filter (\<lambda>ro. op_player ro \<noteq> p) ops) s)"
proof -
  have "sorted_wrt (<) (map fst (players s))"
    using assms by simp
  from history_without_player [OF this, of p ops]
  have "fold apply_op (filter (\<lambda>ro. op_player ro \<noteq> p) ops)
          (s\<lparr> players := obj_delete (players s) p \<rparr>)
        = snd (removePlayer p (fold apply_op ops s))"
    by (simp add: removePlayer_snd)
  moreover have "s\<lparr> players := obj_delete (players s) p \<rparr> = s"
    using assms by simp
  ultimately show ?thesis by simp
qed

text \<open>
  Players 1 and 2 join the one-particle simulation and player 2 moves; after player 2 is
  removed, the registry and the next step are those of the simulation that only player 1
  ever joined.
\<close>

theorem removed_player_leaves_no_trace_witness:
  "players one_particle = []
   \<and> snd (removePlayer 2
             (fold apply_op
                [AddPlayer 1 no_params, AddPlayer 2 no_params,
                 UpdatePlayerPosition 2 \<lparr> vec_x = Num 3, vec_y = Num 4 \<rparr>]
                one_particle))
       = fold apply_op [AddPlayer 1 no_params] one_particle
   \<and> updatePhysics zero_rand (Num 33)
        (snd (removePlayer 2
                (fold apply_op
                   [AddPlayer 1 no_params, AddPlayer 2 no_params,
                    UpdatePlayerPosition 2 \<lparr> vec_x = Num 3, vec_y = Num 4 \<rparr>]
                   one_particle)))
       = updatePhysics zero_rand (Num 33) (fold apply_op [AddPlayer 1 no_params] one_particle)"
proof -
  have h: "players one_particle = []"
    by (simp add: one_particle_def fresh_def)
  show ?thesis
    using h removed_player_leaves_no_trace
              [OF h, of 2
                 "[AddPlayer 1 no_params, AddPlayer 2 no_params,
                   UpdatePlayerPosition 2 \<lparr> vec_x = Num 3, vec_y = Num 4 \<rparr>]"
                 zero_rand "Num 33"]
    by simp
qed

section \<open>The physics step returns\<close>

lemma colorForce_Some:
  "\<exists>r. colorForce rand ts particle (Some c) pl vk = Some r"
  by (cases vk) (simp add: colorForce_def Let_def split: prod.split)

lemma forEach_colorForce_Some:
  "\<exists>r. forEach (colorForce rand ts particle (Some c)) pls vk = Some r"
proof (induction pls arbitrary: vk)
  case Nil
  then show ?case by simp
next
  case (Cons pl pls)
  from colorForce_Some [of rand ts particle c pl vk]
  obtain r where "colorForce rand ts particle (Some c) pl vk = Some r" by blast
  with Cons.IH [of r] show ?case by simp
qed

lemma stepParticle_ok:
  assumes "length (velocities s) = length (particles s)"
    and "length (colors s) = length (particles s)"
    and "j < length (particles s)"
  shows "\<exists>s' p v. stepParticle rand ts j s = Some s'
           \<and> particles s' = (particles s)[j := p]
           \<and> velocities s' = (velocities s)[j := v]
           \<and> colors s' = colors s \<and> options s' = options s \<and> players s' = players s"
proof -
  from forEach_colorForce_Some
         [of rand ts "particles s ! j" "colors s ! j" "map snd (players s)"
             "(velocities s ! j, rand_used s)"]
  obtain v1 k1 where
    "forEach (colorForce rand ts (particles s ! j) (Some (colors s ! j)))
       (map snd (players s)) (velocities s ! j, rand_used s) = Some (v1, k1)"
    by auto
  with assms show ?thesis
    by (auto simp: stepParticle_def Let_def split: prod.split)
qed

lemma forEach_stepParticle_ok:
  assumes "length (velocities s) = length (particles s)"
    and "length (colors s) = length (particles s)"
    and "\<forall>j \<in> set js. j < length (particles s)"
  shows "\<exists>s'. forEach (stepParticle rand ts) js s = Some s'
           \<and> length (particles s') = length (particles s)
           \<and> length (velocities s') = length (particles s)
           \<and> length (colors s') = length (particles s)
           \<and> (\<forall>i. i \<notin> set js \<longrightarrow> particles s' ! i = particles s ! i)"
  using assms
proof (induction js arbitrary: s)
  case Nil
  then show ?case by simp
next
  case (Cons j js)
  from Cons.prems have j: "j < length (particles s)" by simp
  from stepParticle_ok [OF Cons.prems(1,2) j, of rand ts]
  obtain s1 p v where 1: "stepParticle rand ts j s = Some s1"
    and ps: "particles s1 = (particles s)[j := p]"
    and vs: "velocities s1 = (velocities s)[j := v]"
    and cs: "colors s1 = colors s"
    by blast
  have l: "length (velocities s1) = length (particles s1)"
       "length (colors s1) = length (particles s1)"
       "\<forall>j \<in> set js. j < length (particles s1)"
    using Cons.prems by (simp_all add: ps vs cs)
  from Cons.IH [OF l] obtain s' where 2: "forEach (stepParticle rand ts) js s1 = Some s'"
    and l': "length (particles s') = length (particles s1)"
       "length (velocities s') = length (particles s1)"
       "length (colors s') = length (particles s1)"
    and same: "\<forall>i. i \<notin> set js \<longrightarrow> particles s' ! i = particles s1 ! i"
    by blast
  have "\<forall>i. i \<notin> set (j # js) \<longrightarrow> particles s' ! i = particles s ! i"
    using same by (simp add: ps)
  with 1 2 l' show ?case
    by (simp add: ps)
qed

lemma updatePhysics_total:
  assumes "length (velocities s) = length (particles s)"
    and "length (colors s) = length (particles s)"
  shows "\<exists>s'. updatePhysics rand deltaTime s = Some s'
           \<and> length (particles s') = length (particles s)
           \<and> length (velocities s') = length (particles s)
           \<and> length (colors s') = length (particles s)"
proof -
  have "\<forall>j \<in> set [0..<length (particles s)]. j < length (particles s)" by simp
  from forEach_stepParticle_ok [OF assms this, of rand "timeScale deltaTime"]
  show ?thesis
    by (auto simp: updatePhysics_def Let_def)
qed


lemma updatePhysics_steps_total:
  assumes "length (velocities s) = length (particles s)"
    and "length (colors s) = length (particles s)"
  shows "\<exists>s'. updatePhysics_steps rand dts s = Some s'"
  using assms
proof (induction dts arbitrary: s)
  case Nil
  then show ?case by simp
next
  case (Cons dt dts)
  from updatePhysics_total [OF Cons.prems, of rand dt]
  obtain s1 where 1: "updatePhysics rand dt s = Some s1"
    and l: "length (velocities s1) = length (particles s1)"
       "length (colors s1) = length (particles s1)"
    by auto
  from Cons.IH [OF l] 1 show ?case by simp
qed

section \<open>Virtual colour classes\<close>

lemma virtualColorOf_keeps:
  assumes "a i = Some c" and "c \<noteq> 0"
    and "virtualColorOf rand n j (Some a, k) = (col, a', k')"
  shows "a' i = Some c"
  using assms
  by (auto simp: virtualColorOf_def Let_def split: option.splits if_splits)

lemma playerGravity_vc_cases:
  "snd (snd (playerGravity rand ts n j particle pl (v, k, vc))) = vc
   \<or> (insidePrism particle pl
      \<and> snd (snd (playerGravity rand ts n j particle pl (v, k, vc)))
          = Some (fst (snd (virtualColorOf rand n j (vc, k)))))"
  unfolding playerGravity_def insidePrism_def Let_def
  by (simp split: prod.split)

lemma playerGravity_keeps:
  assumes "a i = Some c" and "c \<noteq> 0"
  shows "\<exists>a'. snd (snd (playerGravity rand ts n j particle pl (v, k, Some a))) = Some a'
            \<and> a' i = Some c"
proof -
  obtain col a' k' where vc: "virtualColorOf rand n j (Some a, k) = (col, a', k')"
    by (cases "virtualColorOf rand n j (Some a, k)")
  from virtualColorOf_keeps [OF assms vc] have "a' i = Some c" .
  with playerGravity_vc_cases [of rand ts n j particle pl v k "Some a"] vc assms(1)
  show ?thesis by auto
qed


lemma fold_playerGravity_keeps:
  assumes "a i = Some c" and "c \<noteq> 0"
  shows "\<exists>a'. snd (snd (fold (playerGravity rand ts n j particle) pls (v, k, Some a))) = Some a'
            \<and> a' i = Some c"
  using assms(1)
proof (induction pls arbitrary: v k a)
  case Nil
  then show ?case by simp
next
  case (Cons pl pls)
  obtain v1 k1 vc1 where st: "playerGravity rand ts n j particle pl (v, k, Some a) = (v1, k1, vc1)"
    by (cases "playerGravity rand ts n j particle pl (v, k, Some a)")
  from playerGravity_keeps [where a = a and i = i and c = c, OF Cons.prems assms(2),
         of rand ts n j particle pl v k] st
  obtain a1 where "vc1 = Some a1" and "a1 i = Some c"
    by auto
  with Cons.IH [of a1 v1 k1] st show ?case
    by simp
qed

lemma stepParticle_keeps:
  assumes "particleVirtualColors s = Some a" and "a i = Some c" and "c \<noteq> 0"
    and "stepParticle rand ts j s = Some s'"
  shows "\<exists>a'. particleVirtualColors s' = Some a' \<and> a' i = Some c"
proof -
  from assms(4) obtain v2 k1 v3 k3 vc3 where
    f: "fold (playerGravity rand ts (length (particles s)) j (particles s ! j))
          (map snd (players s)) (v2, k1, particleVirtualColors s) = (v3, k3, vc3)"
    and s': "particleVirtualColors s' = vc3"
    by (auto simp: stepParticle_def Let_def split: if_splits option.splits prod.splits)
  from fold_playerGravity_keeps [where a = a and i = i and c = c, OF assms(2,3),
         of rand ts "length (particles s)" j "particles s ! j" "map snd (players s)" v2 k1]
  show ?thesis
    using f s' assms(1) by simp
qed

lemma forEach_stepParticle_keeps:
  assumes "particleVirtualColors s = Some a" and "a i = Some c" and "c \<noteq> 0"
    and "forEach (stepParticle rand ts) js s = Some s'"
  shows "\<exists>a'. particleVirtualColors s' = Some a' \<and> a' i = Some c"
  using assms(1,2,4)
proof (induction js arbitrary: s a)
  case Nil
  then show ?case by simp
next
  case (Cons j js)
  from Cons.prems(3) obtain s1 where 1: "stepParticle rand ts j s = Some s1"
    and 2: "forEach (stepParticle rand ts) js s1 = Some s'"
    by (auto split: option.splits)
  from stepParticle_keeps [OF Cons.prems(1,2) assms(3) 1]
  obtain a1 where "particleVirtualColors s1 = Some a1" and "a1 i = Some c"
    by blast
  from Cons.IH [OF this 2] show ?case .
qed

lemma updatePhysics_keeps:
  assumes "particleVirtualColors s = Some a" and "a i = Some c" and "c \<noteq> 0"
    and "updatePhysics rand deltaTime s = Some s'"
  shows "\<exists>a'. particleVirtualColors s' = Some a' \<and> a' i = Some c"
proof -
  from assms(4) obtain s1 where
    1: "forEach (stepParticle rand (timeScale deltaTime)) [0..<length (particles s)] s = Some s1"
    and s': "s' = s1\<lparr> simulationTime := simulationTime s1 + deltaTime \<rparr>"
    by (auto simp: updatePhysics_def Let_def split: option.splits)
  from forEach_stepParticle_keeps [OF assms(1,2,3) 1] show ?thesis
    by (simp add: s')
qed

lemma updatePhysics_steps_keeps:
  assumes "particleVirtualColors s = Some a" and "a i = Some c" and "c \<noteq> 0"
    and "updatePhysics_steps rand dts s = Some s'"
  shows "\<exists>a'. particleVirtualColors s' = Some a' \<and> a' i = Some c"
  using assms(1,2,4)
proof (induction dts arbitrary: s a)
  case Nil
  then show ?case by simp
next
  case (Cons dt dts)
  from Cons.prems(3) obtain s1 where 1: "updatePhysics rand dt s = Some s1"
    and 2: "updatePhysics_steps rand dts s1 = Some s'"
    by (auto split: option.splits)
  from updatePhysics_keeps [OF Cons.prems(1,2) assms(3) 1]
  obtain a1 where "particleVirtualColors s1 = Some a1" and "a1 i = Some c"
    by blast
  from Cons.IH [OF this 2] show ?case .
qed

lemma insidePrism_reassigns_zero:
  assumes "insidePrism particle pl" and "a i = Some 0 \<or> a i = None"
  shows "snd (snd (playerGravity rand ts n i particle pl (v, k, Some a)))
         = Some (a(i \<mapsto> \<lfloor>rand k * 6\<rfloor>))"
proof -
  have "virtualColorOf rand n i (Some a, k)
        = (\<lfloor>rand k * 6\<rfloor>, a(i \<mapsto> \<lfloor>rand k * 6\<rfloor>), k + 1)"
    using assms(2) by (auto simp: virtualColorOf_def Let_def)
  with assms(1) show ?thesis
    unfolding playerGravity_def insidePrism_def Let_def
    by (simp split: prod.split)
qed


lemma playerGravity_effect:
  "\<exists>v' k' a'. playerGravity rand ts n j particle pl (v, k, Some a) = (v', k', Some a')
      \<and> k \<le> k'
      \<and> (if insidePrism particle pl \<and> (a j = Some 0 \<or> a j = None)
          then a' = a(j \<mapsto> \<lfloor>rand k * 6\<rfloor>) \<and> k < k'
          else a' = a)"
  unfolding playerGravity_def insidePrism_def virtualColorOf_def Let_def
  by (auto split: prod.split option.split)

lemma colorForce_draws:
  assumes "colorForce rand ts particle color pl (v, k) = Some (v', k')"
  shows "k \<le> k'"
  using assms
  by (auto simp: colorForce_def Let_def split: if_splits option.splits prod.splits)

lemma integrate_draws:
  assumes "integrate rand opts ts particle v k = (p', v', k')"
  shows "k \<le> k'"
  using assms
  by (auto simp: integrate_def Let_def split: if_splits)


lemma forEach_colorForce_draws:
  assumes "forEach (colorForce rand ts particle color) pls (v, k) = Some (v', k')"
  shows "k \<le> k'"
  using assms
proof (induction pls arbitrary: v k)
  case Nil
  then show ?case by simp
next
  case (Cons pl pls)
  from Cons.prems obtain v1 k1 where
    1: "colorForce rand ts particle color pl (v, k) = Some (v1, k1)"
    and 2: "forEach (colorForce rand ts particle color) pls (v1, k1) = Some (v', k')"
    by (auto split: option.splits)
  from colorForce_draws [OF 1] Cons.IH [OF 2] show ?case by simp
qed

text \<open>The players' loop for another particle leaves the class of particle \<open>i\<close> alone.\<close>

lemma fold_playerGravity_other:
  assumes "j \<noteq> i"
  shows "\<exists>v' k' a'. fold (playerGravity rand ts n j particle) pls (v, k, Some a)
                       = (v', k', Some a')
           \<and> k \<le> k' \<and> a' i = a i"
proof (induction pls arbitrary: v k a)
  case Nil
  then show ?case by simp
next
  case (Cons pl pls)
  from playerGravity_effect [of rand ts n j particle pl v k a]
  obtain v1 k1 a1 where 1: "playerGravity rand ts n j particle pl (v, k, Some a) = (v1, k1, Some a1)"
    and k: "k \<le> k1" and a: "a1 i = a i"
    using assms by (auto split: if_splits)
  from Cons.IH [of v1 k1 a1] 1 k a show ?case
    by auto
qed

text \<open>
  The players' loop for particle \<open>i\<close> itself: once the class is that of a draw made at or
  after \<open>k0\<close>, it stays one.
\<close>

lemma fold_playerGravity_drawn:
  assumes "k0 \<le> d" and "d < k" and "a i = Some \<lfloor>rand d * 6\<rfloor>"
  shows "\<exists>v' k' a' d'. fold (playerGravity rand ts n i particle) pls (v, k, Some a)
                       = (v', k', Some a')
           \<and> k \<le> k' \<and> k0 \<le> d' \<and> d' < k' \<and> a' i = Some \<lfloor>rand d' * 6\<rfloor>"
  using assms
proof (induction pls arbitrary: v k a d)
  case Nil
  then show ?case by auto
next
  case (Cons pl pls)
  from playerGravity_effect [of rand ts n i particle pl v k a]
  obtain v1 k1 a1 where 1: "playerGravity rand ts n i particle pl (v, k, Some a) = (v1, k1, Some a1)"
    and k: "k \<le> k1"
    and a: "(a1 = a(i \<mapsto> \<lfloor>rand k * 6\<rfloor>) \<and> k < k1) \<or> a1 = a"
    by (auto split: if_splits)
  have "\<exists>e. k0 \<le> e \<and> e < k1 \<and> a1 i = Some \<lfloor>rand e * 6\<rfloor>"
  proof (rule disjE [OF a])
    assume r: "a1 = a(i \<mapsto> \<lfloor>rand k * 6\<rfloor>) \<and> k < k1"
    then have "a1 i = Some \<lfloor>rand k * 6\<rfloor>" by simp
    moreover have "k0 \<le> k" using Cons.prems by simp
    ultimately show ?thesis using r by blast
  next
    assume "a1 = a"
    moreover have "d < k1" using Cons.prems k by simp
    ultimately show ?thesis using Cons.prems by blast
  qed
  then obtain e where e: "k0 \<le> e" "e < k1" "a1 i = Some \<lfloor>rand e * 6\<rfloor>"
    by blast
  from Cons.IH [of e k1 a1 v1, OF e]
  obtain v' k' a' d' where f: "fold (playerGravity rand ts n i particle) pls (v1, k1, Some a1)
                       = (v', k', Some a')"
    and r: "k1 \<le> k'" "k0 \<le> d'" "d' < k'" "a' i = Some \<lfloor>rand d' * 6\<rfloor>"
    by blast
  have "fold (playerGravity rand ts n i particle) (pl # pls) (v, k, Some a) = (v', k', Some a')"
    using 1 f by simp
  moreover have "k \<le> k'" using k r(1) by simp
  ultimately show ?case using r(2-4) by blast
qed

text \<open>
  The players' loop for particle \<open>i\<close> with a stored class of zero and a player whose
  prism holds the particle: the class becomes that of a draw of the loop.
\<close>

lemma fold_playerGravity_reassigns:
  assumes "a i = Some 0" and "pl \<in> set pls" and "insidePrism particle pl"
  shows "\<exists>v' k' a' d. fold (playerGravity rand ts n i particle) pls (v, k, Some a)
                       = (v', k', Some a')
           \<and> k \<le> d \<and> d < k' \<and> a' i = Some \<lfloor>rand d * 6\<rfloor>"
  using assms(1,2)
proof (induction pls arbitrary: v k a)
  case Nil
  then show ?case by simp
next
  case (Cons q pls)
  from playerGravity_effect [of rand ts n i particle q v k a]
  obtain v1 k1 a1 where 1: "playerGravity rand ts n i particle q (v, k, Some a) = (v1, k1, Some a1)"
    and k: "k \<le> k1"
    and a: "if insidePrism particle q \<and> (a i = Some 0 \<or> a i = None)
            then a1 = a(i \<mapsto> \<lfloor>rand k * 6\<rfloor>) \<and> k < k1 else a1 = a"
    by auto
  have "\<exists>v' k' a' d. fold (playerGravity rand ts n i particle) pls (v1, k1, Some a1)
                       = (v', k', Some a')
           \<and> k \<le> d \<and> d < k' \<and> a' i = Some \<lfloor>rand d * 6\<rfloor>"
  proof (cases "insidePrism particle q")
    case True
    with a Cons.prems(1) have r: "k < k1" "a1 i = Some \<lfloor>rand k * 6\<rfloor>" by auto
    have "k \<le> k" by simp
    from fold_playerGravity_drawn
           [where a = a1 and i = i and rand = rand and d = k and k = k1 and ?k0.0 = k,
            OF this r, of ts n particle pls v1]
    show ?thesis by blast
  next
    case False
    with a have a1: "a1 i = Some 0" using Cons.prems(1) by simp
    from False Cons.prems(2) assms(3) have "pl \<in> set pls" by auto
    from Cons.IH [of a1 v1 k1, OF a1 this]
    obtain v' k' a' d where "fold (playerGravity rand ts n i particle) pls (v1, k1, Some a1)
                       = (v', k', Some a')"
      and r: "k1 \<le> d" "d < k'" "a' i = Some \<lfloor>rand d * 6\<rfloor>"
      by blast
    moreover have "k \<le> d" using k r(1) by simp
    ultimately show ?thesis by blast
  qed
  then show ?case using 1 by simp
qed


lemma stepParticle_parts:
  assumes "stepParticle rand ts j s = Some s'"
  shows "\<exists>v1 k1 v3 k3 vc3 p4 v4 k4.
           forEach (colorForce rand ts (particles s ! j)
                      (if j < length (colors s) then Some (colors s ! j) else None))
             (map snd (players s)) (velocities s ! j, rand_used s) = Some (v1, k1)
         \<and> fold (playerGravity rand ts (length (particles s)) j (particles s ! j))
             (map snd (players s))
             (centralGravity (options s) ts (particles s ! j) v1, k1, particleVirtualColors s)
             = (v3, k3, vc3)
         \<and> integrate rand (options s) ts (particles s ! j) v3 k3 = (p4, v4, k4)
         \<and> s' = s\<lparr> particles := (particles s)[j := p4],
                    velocities := (velocities s)[j := v4],
                    particleVirtualColors := vc3,
                    rand_used := k4 \<rparr>"
  using assms
  by (auto simp: stepParticle_def Let_def split: if_splits option.splits prod.splits)

text \<open>The round of another particle leaves the class and the position of particle \<open>i\<close>.\<close>

lemma stepParticle_other:
  assumes "j \<noteq> i" and "particleVirtualColors s = Some a"
    and "stepParticle rand ts j s = Some s'"
  shows "\<exists>a'. particleVirtualColors s' = Some a' \<and> a' i = a i"
    and "rand_used s \<le> rand_used s'"
    and "particles s' ! i = particles s ! i"
    and "players s' = players s"
    and "length (particles s') = length (particles s)"
proof -
  from stepParticle_parts [OF assms(3)] obtain v1 k1 v3 k3 vc3 p4 v4 k4 where
    c: "forEach (colorForce rand ts (particles s ! j)
                      (if j < length (colors s) then Some (colors s ! j) else None))
             (map snd (players s)) (velocities s ! j, rand_used s) = Some (v1, k1)"
    and f: "fold (playerGravity rand ts (length (particles s)) j (particles s ! j))
             (map snd (players s))
             (centralGravity (options s) ts (particles s ! j) v1, k1, particleVirtualColors s)
             = (v3, k3, vc3)"
    and g: "integrate rand (options s) ts (particles s ! j) v3 k3 = (p4, v4, k4)"
    and s': "s' = s\<lparr> particles := (particles s)[j := p4],
                    velocities := (velocities s)[j := v4],
                    particleVirtualColors := vc3,
                    rand_used := k4 \<rparr>"
    by blast
  from fold_playerGravity_other [OF assms(1), of rand ts "length (particles s)" "particles s ! j"
         "map snd (players s)" "centralGravity (options s) ts (particles s ! j) v1" k1 a]
       f assms(2)
  obtain a' where a': "vc3 = Some a'" "a' i = a i" and k: "k1 \<le> k3"
    by auto
  show "\<exists>a'. particleVirtualColors s' = Some a' \<and> a' i = a i"
    using a' by (simp add: s')
  show "rand_used s \<le> rand_used s'"
    using forEach_colorForce_draws [OF c] k integrate_draws [OF g] by (simp add: s')
  show "particles s' ! i = particles s ! i"
    using assms(1) by (simp add: s')
  show "players s' = players s" by (simp add: s')
  show "length (particles s') = length (particles s)" by (simp add: s')
qed

text \<open>
  The round of particle \<open>i\<close> itself, with a stored class of zero and a player whose prism
  holds the particle: the class stored afterwards is that of a draw of this round.
\<close>

lemma stepParticle_reassigns:
  assumes "particleVirtualColors s = Some a" and "a i = Some 0"
    and "pl \<in> set (map snd (players s))" and "insidePrism (particles s ! i) pl"
    and "stepParticle rand ts i s = Some s'"
  shows "\<exists>a' d. particleVirtualColors s' = Some a'
           \<and> rand_used s \<le> d \<and> d < rand_used s' \<and> a' i = Some \<lfloor>rand d * 6\<rfloor>"
proof -
  from stepParticle_parts [OF assms(5)] obtain v1 k1 v3 k3 vc3 p4 v4 k4 where
    c: "forEach (colorForce rand ts (particles s ! i)
                      (if i < length (colors s) then Some (colors s ! i) else None))
             (map snd (players s)) (velocities s ! i, rand_used s) = Some (v1, k1)"
    and f: "fold (playerGravity rand ts (length (particles s)) i (particles s ! i))
             (map snd (players s))
             (centralGravity (options s) ts (particles s ! i) v1, k1, particleVirtualColors s)
             = (v3, k3, vc3)"
    and g: "integrate rand (options s) ts (particles s ! i) v3 k3 = (p4, v4, k4)"
    and s': "s' = s\<lparr> particles := (particles s)[i := p4],
                    velocities := (velocities s)[i := v4],
                    particleVirtualColors := vc3,
                    rand_used := k4 \<rparr>"
    by blast
  from fold_playerGravity_reassigns
         [where a = a and i = i, OF assms(2,3,4), of rand ts "length (particles s)"
            "centralGravity (options s) ts (particles s ! i) v1" k1]
       f assms(1)
  obtain a' d where a': "vc3 = Some a'" "a' i = Some \<lfloor>rand d * 6\<rfloor>"
    and d: "k1 \<le> d" "d < k3"
    by auto
  have "rand_used s \<le> d"
    using forEach_colorForce_draws [OF c] d(1) by simp
  moreover have "d < rand_used s'"
    using d(2) integrate_draws [OF g] by (simp add: s')
  ultimately show ?thesis
    using a' by (auto simp: s')
qed

lemma forEach_append:
  "forEach f (xs @ ys) b = (case forEach f xs b of None \<Rightarrow> None | Some b' \<Rightarrow> forEach f ys b')"
  by (induction xs arbitrary: b) (auto split: option.splits)

lemma forEach_stepParticle_other:
  assumes "i \<notin> set js" and "particleVirtualColors s = Some a"
    and "forEach (stepParticle rand ts) js s = Some s'"
  shows "(\<exists>a'. particleVirtualColors s' = Some a' \<and> a' i = a i)
       \<and> rand_used s \<le> rand_used s'
       \<and> particles s' ! i = particles s ! i
       \<and> players s' = players s
       \<and> length (particles s') = length (particles s)"
  using assms
proof (induction js arbitrary: s a)
  case Nil
  then show ?case by simp
next
  case (Cons j js)
  from Cons.prems(3) obtain s1 where 1: "stepParticle rand ts j s = Some s1"
    and 2: "forEach (stepParticle rand ts) js s1 = Some s'"
    by (auto split: option.splits)
  from Cons.prems(1) have ji: "j \<noteq> i" and ijs: "i \<notin> set js" by auto
  note o = stepParticle_other [OF ji Cons.prems(2) 1]
  from o(1) obtain a1 where a1: "particleVirtualColors s1 = Some a1" "a1 i = a i"
    by blast
  from Cons.IH [OF ijs a1(1) 2] a1(2) o(2-5) show ?case
    by auto
qed

lemma upt_split_at:
  assumes "i < n"
  shows "[0..<n] = [0..<i] @ i # [Suc i..<n]"
proof -
  have "[0..<n] = [0..<i] @ [i..<n]"
    using assms upt_add_eq_append [of 0 i "n - i"] by simp
  also have "[i..<n] = i # [Suc i..<n]"
    using assms by (rule upt_conv_Cons)
  finally show ?thesis .
qed

text \<open>
  A whole step: particle \<open>i\<close> has a stored class of zero and is inside the prism of a
  player when the step begins. After the step its stored class is that of a draw made
  during the step.
\<close>

lemma updatePhysics_reassigns:
  assumes "particleVirtualColors s = Some a" and "a i = Some 0"
    and "i < length (particles s)"
    and "pl \<in> set (map snd (players s))" and "insidePrism (particles s ! i) pl"
    and "updatePhysics rand deltaTime s = Some s'"
  shows "\<exists>a' d. particleVirtualColors s' = Some a'
           \<and> rand_used s \<le> d \<and> d < rand_used s' \<and> a' i = Some \<lfloor>rand d * 6\<rfloor>"
proof -
  define ts where "ts = timeScale deltaTime"
  from assms(6) obtain s3 where
    all: "forEach (stepParticle rand ts) [0..<length (particles s)] s = Some s3"
    and s': "s' = s3\<lparr> simulationTime := simulationTime s3 + deltaTime \<rparr>"
    by (auto simp: updatePhysics_def Let_def ts_def split: option.splits)
  from all obtain s1 s2 where
    before: "forEach (stepParticle rand ts) [0..<i] s = Some s1"
    and own: "stepParticle rand ts i s1 = Some s2"
    and after: "forEach (stepParticle rand ts) [Suc i..<length (particles s)] s2 = Some s3"
    unfolding upt_split_at [OF assms(3)] forEach_append
    by (auto split: option.splits)
  have "i \<notin> set [0..<i]" by simp
  from forEach_stepParticle_other [OF this assms(1) before] assms(2)
  obtain a1 where a1: "particleVirtualColors s1 = Some a1" "a1 i = Some 0"
    and r1: "rand_used s \<le> rand_used s1"
    and p1: "particles s1 ! i = particles s ! i" "players s1 = players s"
    by auto
  from stepParticle_reassigns [OF a1, of pl rand ts s2] assms(4,5) p1 own
  obtain a2 d where a2: "particleVirtualColors s2 = Some a2" "a2 i = Some \<lfloor>rand d * 6\<rfloor>"
    and d: "rand_used s1 \<le> d" "d < rand_used s2"
    by auto
  have "i \<notin> set [Suc i..<length (particles s)]" by simp
  from forEach_stepParticle_other [OF this a2(1) after] a2(2)
  obtain a3 where a3: "particleVirtualColors s3 = Some a3" "a3 i = Some \<lfloor>rand d * 6\<rfloor>"
    and r3: "rand_used s2 \<le> rand_used s3"
    by auto
  have "rand_used s \<le> d" using r1 d(1) by simp
  moreover have "d < rand_used s'" using d(2) r3 by (simp add: s')
  ultimately show ?thesis
    using a3 by (auto simp: s')
qed

text \<open>
  C10. A particle whose stored virtual colour class is not zero keeps that class over
  any number of physics steps. A particle whose stored class is zero gets, each time it
  is inside the prism of a player, the class \<open>floor(6 * r)\<close> of a fresh random draw
  \<open>r\<close> stored in place of the zero. So when such a particle is inside the prism of a
  player as a physics step begins, the class that the array holds for it after the step
  is \<open>floor(6 * r)\<close> for a draw \<open>r\<close> made during that step.
\<close>

theorem virtual_color_stable_iff_nonzero:
  "(particleVirtualColors s = Some a \<and> a i = Some c \<and> c \<noteq> 0
      \<and> updatePhysics_steps rand dts s = Some s' \<longrightarrow>
    (\<exists>a'. particleVirtualColors s' = Some a' \<and> a' i = Some c))
   \<and> (insidePrism particle pl \<and> b i = Some 0 \<longrightarrow>
    snd (snd (playerGravity rand ts n i particle pl (v, k, Some b)))
      = Some (b(i \<mapsto> \<lfloor>rand k * 6\<rfloor>)))
   \<and> (particleVirtualColors t = Some e \<and> e i = Some 0 \<and> i < length (particles t)
      \<and> q \<in> set (map snd (players t)) \<and> insidePrism (particles t ! i) q
      \<and> updatePhysics rand deltaTime t = Some t' \<longrightarrow>
    (\<exists>e' d. particleVirtualColors t' = Some e'
        \<and> rand_used t \<le> d \<and> d < rand_used t' \<and> e' i = Some \<lfloor>rand d * 6\<rfloor>))"
proof (intro conjI impI)
  assume "particleVirtualColors s = Some a \<and> a i = Some c \<and> c \<noteq> 0
      \<and> updatePhysics_steps rand dts s = Some s'"
  then show "\<exists>a'. particleVirtualColors s' = Some a' \<and> a' i = Some c"
    using updatePhysics_steps_keeps [where a = a and i = i and c = c] by blast
next
  assume "insidePrism particle pl \<and> b i = Some 0"
  then show "snd (snd (playerGravity rand ts n i particle pl (v, k, Some b)))
      = Some (b(i \<mapsto> \<lfloor>rand k * 6\<rfloor>))"
    using insidePrism_reassigns_zero [where a = b and i = i] by blast
next
  assume "particleVirtualColors t = Some e \<and> e i = Some 0 \<and> i < length (particles t)
      \<and> q \<in> set (map snd (players t)) \<and> insidePrism (particles t ! i) q
      \<and> updatePhysics rand deltaTime t = Some t'"
  then show "\<exists>e' d. particleVirtualColors t' = Some e'
        \<and> rand_used t \<le> d \<and> d < rand_used t' \<and> e' i = Some \<lfloor>rand d * 6\<rfloor>"
    using updatePhysics_reassigns [where a = e and i = i] by blast
qed

text \<open>
  One particle at (1, 0) inside the prism of the default player at the origin. A stored
  class of 3 survives two steps. With draws of 0.9, a stored class of 0 is replaced by 5,
  both in the players' loop and in the array after a whole step.
\<close>

theorem virtual_color_stable_iff_nonzero_witness:
  "particleVirtualColors
      ((snd (addPlayer 1 no_params one_particle))
         \<lparr> particleVirtualColors := Some (\<lambda>j. Some 3) \<rparr>) = Some (\<lambda>j. Some 3)
   \<and> (\<lambda>j. Some (3::int)) 0 = Some 3 \<and> (3::int) \<noteq> 0
   \<and> (\<exists>s'. updatePhysics_steps high_rand [Num 33, Num 33]
               ((snd (addPlayer 1 no_params one_particle))
                  \<lparr> particleVirtualColors := Some (\<lambda>j. Some 3) \<rparr>) = Some s'
          \<and> (\<exists>a'. particleVirtualColors s' = Some a' \<and> a' 0 = Some 3))
   \<and> insidePrism \<lparr> vec_x = Num 1, vec_y = Num 0 \<rparr> (fst (addPlayer 1 no_params one_particle))
   \<and> (\<lambda>j. Some (0::int)) 0 = Some 0
   \<and> snd (snd (playerGravity high_rand (Num 2) 1 0 \<lparr> vec_x = Num 1, vec_y = Num 0 \<rparr>
                  (fst (addPlayer 1 no_params one_particle))
                  (\<lparr> vec_x = Num 0, vec_y = Num 0 \<rparr>, 5, Some (\<lambda>j. Some 0))))
       = Some ((\<lambda>j. Some 0)(0 \<mapsto> 5))
   \<and> particleVirtualColors
        ((snd (addPlayer 1 no_params one_particle))
           \<lparr> particleVirtualColors := Some (\<lambda>j. Some 0) \<rparr>) = Some (\<lambda>j. Some 0)
   \<and> 0 < length (particles ((snd (addPlayer 1 no_params one_particle))
                               \<lparr> particleVirtualColors := Some (\<lambda>j. Some 0) \<rparr>))
   \<and> fst (addPlayer 1 no_params one_particle)
        \<in> set (map snd (players ((snd (addPlayer 1 no_params one_particle))
                                    \<lparr> particleVirtualColors := Some (\<lambda>j. Some 0) \<rparr>)))
   \<and> insidePrism
        (particles ((snd (addPlayer 1 no_params one_particle))
                      \<lparr> particleVirtualColors := Some (\<lambda>j. Some 0) \<rparr>) ! 0)
        (fst (addPlayer 1 no_params one_particle))
   \<and> (\<exists>t'. updatePhysics high_rand (Num 33)
               ((snd (addPlayer 1 no_params one_particle))
                  \<lparr> particleVirtualColors := Some (\<lambda>j. Some 0) \<rparr>) = Some t'
          \<and> (\<exists>e'. particleVirtualColors t' = Some e' \<and> e' 0 = Some 5))"
proof -
  define s where "s = (snd (addPlayer 1 no_params one_particle))
         \<lparr> particleVirtualColors := Some (\<lambda>j. Some 3) \<rparr>"
  define t where "t = (snd (addPlayer 1 no_params one_particle))
         \<lparr> particleVirtualColors := Some (\<lambda>j. Some 0) \<rparr>"
  define pl where "pl = fst (addPlayer 1 no_params one_particle)"
  have l: "length (velocities s) = length (particles s)"
      "length (colors s) = length (particles s)"
    by (simp_all add: s_def addPlayer_snd one_particle_def)
  from updatePhysics_steps_total [OF l, of high_rand "[Num 33, Num 33]"]
  obtain s' where s': "updatePhysics_steps high_rand [Num 33, Num 33] s = Some s'"
    by blast
  have vc: "particleVirtualColors s = Some (\<lambda>j. Some 3)"
    by (simp add: s_def)
  have ip: "insidePrism \<lparr> vec_x = Num 1, vec_y = Num 0 \<rparr> pl"
    by (simp add: pl_def insidePrism_def addPlayer_fst Let_def minus_jsnum_def no_params_def
          one_particle_def fresh_def resolve_options_def no_options_def)
  have lt: "length (velocities t) = length (particles t)"
      "length (colors t) = length (particles t)"
    by (simp_all add: t_def addPlayer_snd one_particle_def)
  from updatePhysics_total [OF lt, of high_rand "Num 33"]
  obtain t' where t': "updatePhysics high_rand (Num 33) t = Some t'"
    by blast
  have tf: "particleVirtualColors t = Some (\<lambda>j. Some 0)"
      "particles t = [\<lparr> vec_x = Num 1, vec_y = Num 0 \<rparr>]"
      "players t = [(1, pl)]"
    by (simp_all add: t_def pl_def addPlayer_snd one_particle_def fresh_def)
  have fl: "\<lfloor>high_rand d * 6\<rfloor> = 5" for d
    by (simp add: high_rand_def)
  note inst = virtual_color_stable_iff_nonzero
        [where s = s and a = "\<lambda>j. Some 3" and i = 0 and c = 3 and rand = high_rand
           and dts = "[Num 33, Num 33]" and s' = s'
           and particle = "\<lparr> vec_x = Num 1, vec_y = Num 0 \<rparr>"
           and pl = pl and b = "\<lambda>j. Some 0" and ts = "Num 2" and n = 1
           and v = "\<lparr> vec_x = Num 0, vec_y = Num 0 \<rparr>" and k = 5
           and t = t and e = "\<lambda>j. Some 0" and q = pl and deltaTime = "Num 33" and t' = t']
  from inst vc s' have c1: "\<exists>a'. particleVirtualColors s' = Some a' \<and> a' 0 = Some 3"
    by simp
  from inst ip have c2: "snd (snd (playerGravity high_rand (Num 2) 1 0
                  \<lparr> vec_x = Num 1, vec_y = Num 0 \<rparr> pl
                  (\<lparr> vec_x = Num 0, vec_y = Num 0 \<rparr>, 5, Some (\<lambda>j. Some 0))))
       = Some ((\<lambda>j. Some 0)(0 \<mapsto> 5))"
    by (simp add: fl)
  from inst tf ip t' have "\<exists>e' d. particleVirtualColors t' = Some e'
        \<and> rand_used t \<le> d \<and> d < rand_used t' \<and> e' 0 = Some \<lfloor>high_rand d * 6\<rfloor>"
    by simp
  then have c3: "\<exists>e'. particleVirtualColors t' = Some e' \<and> e' 0 = Some 5"
    by (auto simp: fl)
  show ?thesis
    unfolding s_def [symmetric] t_def [symmetric] pl_def [symmetric]
    using vc s' ip tf t' c1 c2 c3
    by simp
qed

section \<open>A particle at the position of a player\<close>

lemma initParticle_appends:
  "\<exists>p v c. particles (initParticle rand s) = particles s @ [p]
         \<and> velocities (initParticle rand s) = velocities s @ [v]
         \<and> colors (initParticle rand s) = colors s @ [c]"
  by (simp add: initParticle_def Let_def split: prod.split)

lemma initParticle_others:
  "options (initParticle rand s) = options s"
  "players (initParticle rand s) = players s"
  by (simp_all add: initParticle_def Let_def split: prod.split)

lemma initLoop_keeps_first:
  assumes "particles s \<noteq> []" and "velocities s \<noteq> []" and "colors s \<noteq> []"
  shows "particles (initLoop rand (Num c) i s) ! 0 = particles s ! 0
       \<and> velocities (initLoop rand (Num c) i s) ! 0 = velocities s ! 0
       \<and> colors (initLoop rand (Num c) i s) ! 0 = colors s ! 0
       \<and> options (initLoop rand (Num c) i s) = options s
       \<and> players (initLoop rand (Num c) i s) = players s"
  using assms
proof (induction rand "Num c" i s rule: initLoop.induct)
  case (1 rand i s)
  show ?case
  proof (cases "real i < c")
    case True
    from initParticle_appends [of rand s] obtain p v col where
      a: "particles (initParticle rand s) = particles s @ [p]"
         "velocities (initParticle rand s) = velocities s @ [v]"
         "colors (initParticle rand s) = colors s @ [col]"
      by blast
    from True have "Num c \<noteq> PInf \<and> Num (real i) < Num c" by simp
    from "1.hyps" [OF this] a "1.prems"
    show ?thesis
      by (simp add: initLoop_step [OF True] initParticle_others nth_append)
  next
    case False
    then show ?thesis by (simp add: initLoop_stop)
  qed
qed

lemma first_particle:
  assumes "particles s = []" and "velocities s = []" and "colors s = []"
    and "rand_used s = 0"
    and "options s
         = resolve_options (no_options\<lparr> raw_options.particleCount := Some (Num 2000) \<rparr>)"
  shows "particles (initParticle origin_rand s) = [\<lparr> vec_x = Num 0, vec_y = Num 0 \<rparr>]
   \<and> velocities (initParticle origin_rand s)
       = [\<lparr> vec_x = Num (- 5 / 2), vec_y = Num (- 5 / 2) \<rparr>]
   \<and> colors (initParticle origin_rand s)
       = [\<lparr> col_r = Num 0, col_g = Num 0, col_b = Num 0 \<rparr>]"
  using assms
  by (simp add: initParticle_def resolve_options_def no_options_def
        origin_rand_def Math_PI_def minus_jsnum_def Let_def)

lemma timeScale_33: "timeScale (Num 33) = Num (99 / 50)"
  by (simp add: timeScale_def)

lemma stepParticle_at_player:
  assumes "0 < length (velocities s)" and "0 < length (colors s)"
    and "particles s ! 0 = \<lparr> vec_x = Num 0, vec_y = Num 0 \<rparr>"
    and "velocities s ! 0 = \<lparr> vec_x = Num (- 5 / 2), vec_y = Num (- 5 / 2) \<rparr>"
    and "colors s ! 0 = \<lparr> col_r = Num 0, col_g = Num 0, col_b = Num 0 \<rparr>"
    and "players s = [(1, \<lparr> position = \<lparr> vec_x = Num 0, vec_y = Num 0 \<rparr>,
                             gravityStrength = Num (3 / 2), prismRadius = Num 50,
                             lensingStrength = Num 3, prismStrength = Num 2,
                             prismDispersion = None \<rparr>)]"
    and "options s = resolve_options (no_options\<lparr> raw_options.particleCount := Some (Num 2000) \<rparr>)"
  shows "\<exists>s'. stepParticle rand (Num (99 / 50)) 0 s = Some s'
           \<and> particles s' = (particles s)[0 := \<lparr> vec_x = NaN, vec_y = NaN \<rparr>]
           \<and> velocities s' = (velocities s)[0 := \<lparr> vec_x = NaN, vec_y = NaN \<rparr>]
           \<and> colors s' = colors s"
  using assms
  by (simp add: stepParticle_def colorForce_def centralGravity_def playerGravity_def
        integrate_def Let_def minus_jsnum_def resolve_options_def no_options_def)


text \<open>
  The respawn at the boundary divides by the new radius, which is zero when the draw for
  it is zero; the velocity set there is then NaN, and the next move makes the position
  NaN. Here a particle leaves the boundary of the default options in one step.
\<close>

lemma respawn_at_radius_zero:
  "integrate zero_rand (resolve_options no_options) (Num 1)
     \<lparr> vec_x = Num 0, vec_y = Num 0 \<rparr> \<lparr> vec_x = Num 2000, vec_y = Num 0 \<rparr> 0
   = (\<lparr> vec_x = Num 0, vec_y = Num 0 \<rparr>, \<lparr> vec_x = NaN, vec_y = NaN \<rparr>, 4)"
proof -
  have "sqrt ((1960::real) * 1960) = \<bar>1960\<bar>"
    by (rule real_sqrt_abs2)
  then have r: "sqrt (3841600::real) = 1960"
    by simp
  show ?thesis
    by (simp add: integrate_def resolve_options_def no_options_def zero_rand_def
          Math_PI_def Let_def minus_jsnum_def r)
qed

text \<open>
  C1. Not every particle position stays finite in the scenario. The pool has 2000
  particles; the random draws are 0.75 and then zeros, so that the first particle is
  created at radius zero, at the origin; the player is added with its default position,
  the origin. In the first step of 33 ms the colour force divides the offset to the player
  by the distance to the player, which is zero over zero for this particle, and no guard
  precedes the division. After the step the position of the particle is NaN in both
  coordinates.
\<close>

theorem first_tick_gives_NaN:
  "\<exists>s0 s2. new_sim origin_rand (no_options\<lparr> raw_options.particleCount := Some (Num 2000) \<rparr>) 0
               = Some s0
      \<and> length (particles s0) = 2000
      \<and> particles s0 ! 0 = \<lparr> vec_x = Num 0, vec_y = Num 0 \<rparr>
      \<and> updatePhysics origin_rand (Num 33) (snd (addPlayer 1 no_params s0)) = Some s2
      \<and> particles s2 ! 0 = \<lparr> vec_x = NaN, vec_y = NaN \<rparr>"
proof -
  define sE where
    "sE = (fresh (resolve_options
                    (no_options\<lparr> raw_options.particleCount := Some (Num 2000) \<rparr>)) 0)
            \<lparr> particles := [], velocities := [], colors := [] \<rparr>"
  define s0 where "s0 = initLoop origin_rand (Num 2000) 0 sE"
  have sE: "particles sE = []" "velocities sE = []" "colors sE = []" "rand_used sE = 0"
      "options sE
       = resolve_options (no_options\<lparr> raw_options.particleCount := Some (Num 2000) \<rparr>)"
      "players sE = []"
    by (simp_all add: sE_def fresh_def)
  have pc: "options.particleCount
              (options (fresh (resolve_options
                                 (no_options\<lparr> raw_options.particleCount := Some (Num 2000) \<rparr>)) 0))
            = Num 2000"
    by (simp add: fresh_def resolve_options_def no_options_def)
  have new: "new_sim origin_rand (no_options\<lparr> raw_options.particleCount := Some (Num 2000) \<rparr>) 0
             = Some s0"
    by (simp add: new_sim_def initParticles_Num [OF pc] s0_def sE_def)
  have len: "length (particles s0) = 2000" "length (velocities s0) = 2000"
      "length (colors s0) = 2000"
    using initLoop_lengths [of origin_rand 2000 0 sE]
    by (simp_all add: s0_def sE)
  have unroll: "s0 = initLoop origin_rand (Num 2000) (Suc 0) (initParticle origin_rand sE)"
    unfolding s0_def by (rule initLoop_step) simp
  have first: "particles s0 ! 0 = \<lparr> vec_x = Num 0, vec_y = Num 0 \<rparr>"
      "velocities s0 ! 0 = \<lparr> vec_x = Num (- 5 / 2), vec_y = Num (- 5 / 2) \<rparr>"
      "colors s0 ! 0 = \<lparr> col_r = Num 0, col_g = Num 0, col_b = Num 0 \<rparr>"
      "options s0 = resolve_options (no_options\<lparr> raw_options.particleCount := Some (Num 2000) \<rparr>)"
      "players s0 = []"
    using initLoop_keeps_first [of "initParticle origin_rand sE" origin_rand 2000 "Suc 0"]
      first_particle [OF sE(1-5)]
    by (simp_all add: unroll [symmetric] initParticle_others sE)
  define s1 where "s1 = snd (addPlayer 1 no_params s0)"
  have s1: "particles s1 = particles s0" "velocities s1 = velocities s0"
      "colors s1 = colors s0" "options s1 = options s0"
      "players s1 = [(1, \<lparr> position = \<lparr> vec_x = Num 0, vec_y = Num 0 \<rparr>,
                             gravityStrength = Num (3 / 2), prismRadius = Num 50,
                             lensingStrength = Num 3, prismStrength = Num 2,
                             prismDispersion = None \<rparr>)]"
    by (simp_all add: s1_def addPlayer_snd addPlayer_fst first no_params_def
          resolve_options_def no_options_def)
  from stepParticle_at_player [of s1 origin_rand]
  obtain s' where step: "stepParticle origin_rand (Num (99 / 50)) 0 s1 = Some s'"
    and ps: "particles s' = (particles s1)[0 := \<lparr> vec_x = NaN, vec_y = NaN \<rparr>]"
    and vs: "velocities s' = (velocities s1)[0 := \<lparr> vec_x = NaN, vec_y = NaN \<rparr>]"
    and cs: "colors s' = colors s1"
    using s1 first len by auto
  have n: "length (particles s') = length (particles s1)" "0 < length (particles s1)"
    by (simp_all add: ps s1 len)
  have l': "length (velocities s') = length (particles s')"
      "length (colors s') = length (particles s')"
    by (simp_all add: ps vs cs s1 len)
  have l'': "\<forall>j \<in> set [Suc 0..<length (particles s1)]. j < length (particles s')"
    by (simp add: n)
  from forEach_stepParticle_ok [OF l' l'', of origin_rand "Num (99 / 50)"]
  obtain s2 where rest: "forEach (stepParticle origin_rand (Num (99 / 50)))
                           [Suc 0..<length (particles s1)] s' = Some s2"
    and same: "particles s2 ! 0 = particles s' ! 0"
    by auto
  have "[0..<length (particles s1)] = 0 # [Suc 0..<length (particles s1)]"
    using n(2) by (rule upt_conv_Cons)
  with step rest have "updatePhysics origin_rand (Num 33) s1
      = Some (s2\<lparr> simulationTime := simulationTime s2 + Num 33 \<rparr>)"
    by (simp add: updatePhysics_def timeScale_33)
  moreover have "particles s2 ! 0 = \<lparr> vec_x = NaN, vec_y = NaN \<rparr>"
    using n(2) by (simp add: same ps)
  ultimately show ?thesis
    using new len(1) first(1) unfolding s1_def by auto
qed


end
